theory Spec2Isabelle
  imports Main "HOL-Library.Multiset" "HOL-Library.Sublist"
begin

section \<open>JavaScript values\<close>

text \<open>
  The values that travel through the message list and the flight formatter are JSON-like
  JavaScript values. Numbers are restricted to integers; functions are not values of this
  type. \<open>JUndefined\<close> also stands for an absent property. An object lists its own
  properties; a lookup takes the first entry of a key.
\<close>

datatype jsval =
    JUndefined
  | JNull
  | JBool bool
  | JNum int
  | JStr string
  | JArr "jsval list"
  | JObj "(string \<times> jsval) list"

text \<open>JavaScript truthiness, as used by \<open>!x\<close>, \<open>x || y\<close> and \<open>if (x)\<close>.\<close>

fun truthy :: "jsval \<Rightarrow> bool" where
  "truthy JUndefined = False"
| "truthy JNull = False"
| "truthy (JBool b) = b"
| "truthy (JNum n) = (n \<noteq> 0)"
| "truthy (JStr s) = (s \<noteq> [])"
| "truthy (JArr xs) = True"
| "truthy (JObj kvs) = True"

section \<open>Messages and parts (src/src/utils.ts)\<close>

text \<open>
  A part of a \<open>UIMessage\<close>. \<open>ptype\<close> is the field \<open>type\<close>, and \<open>p_input\<close> and
  \<open>p_output\<close> are the fields \<open>input\<close> and \<open>output\<close>. A field that a part does not
  have is \<open>JUndefined\<close> (the empty string for \<open>state\<close> and \<open>toolCallId\<close>); \<open>rest\<close>
  holds every other field (the \<open>text\<close> of a text part, for instance).
\<close>

record part =
  ptype :: string
  toolCallId :: string
  state :: string
  p_input :: jsval
  p_output :: jsval
  errorText :: jsval
  rest :: "(string \<times> jsval) list"

record message =
  mid :: string
  role :: string
  metadata :: jsval
  parts :: "part list option"

text \<open>
  \<open>isStaticToolUIPart\<close> of the \<open>ai\<close> package: a part is a static tool part when its
  type starts with \<open>tool-\<close> (a dynamic tool part has the type \<open>dynamic-tool\<close>).
\<close>

definition isStaticToolUIPart :: "part \<Rightarrow> bool" where
  "isStaticToolUIPart p = prefix ''tool-'' (ptype p)"

text \<open>\<open>s.replace(pat, rep)\<close> for a string pattern: the first occurrence is replaced.\<close>

fun replace_first :: "string \<Rightarrow> string \<Rightarrow> string \<Rightarrow> string" where
  "replace_first pat rep [] = (if pat = [] then rep else [])"
| "replace_first pat rep (c # cs) =
     (if prefix pat (c # cs) then rep @ drop (length pat) (c # cs)
      else c # replace_first pat rep cs)"

text \<open>The tool name of a static tool part: \<open>part.type.replace("tool-", "")\<close> (line 47).\<close>

definition toolNameOf :: "part \<Rightarrow> string" where
  "toolNameOf p = replace_first ''tool-'' '''' (ptype p)"

text \<open>
  The constant \<open>APPROVAL\<close> is imported from \<open>./shared\<close>, which is not among the
  sources: its two string tokens are parameters of the model.
\<close>

record approval =
  YES :: string
  NO :: string

text \<open>
  An executor takes the part's input and a context (the model-projected messages and the
  call id). It is asynchronous; a rejected promise is \<open>None\<close>.
\<close>

type_synonym 'mm executor = "jsval \<Rightarrow> 'mm \<times> string \<Rightarrow> jsval option"

text \<open>
  What \<open>executions[toolName]\<close> can evaluate to when \<open>toolName in executions\<close> holds:
  a function, a falsy value, or a truthy value that is not callable.
\<close>

datatype 'mm slot = Fn "'mm executor" | Falsy | TruthyNonFunction

text \<open>
  The registry as the code reads it: \<open>toolName in executions\<close> is \<open>executions toolName \<noteq> None\<close>
  and \<open>executions[toolName]\<close> is the slot found. Both JavaScript operations follow the
  prototype chain of the object.
\<close>

type_synonym 'mm registry = "string \<rightharpoonup> 'mm slot"

text \<open>The event written to the data stream, of type \<open>tool-output-available\<close>.\<close>

datatype event = ToolOutputAvailable string jsval

text \<open>A record of one executor invocation: tool name, input, context.\<close>

type_synonym 'mm call = "string \<times> jsval \<times> 'mm \<times> string"

type_synonym ('a, 'mm) resolved = "('a \<times> event multiset \<times> 'mm call multiset) option"

definition unchanged :: "'a \<Rightarrow> ('a, 'mm) resolved" where
  "unchanged x = Some (x, {#}, {#})"

text \<open>Lines 80-91: write the event, return the part with the new output.\<close>

definition forward :: "part \<Rightarrow> jsval \<Rightarrow> 'mm call multiset \<Rightarrow> (part, 'mm) resolved" where
  "forward p result calls =
     Some (p\<lparr>p_output := result\<rparr>, {#ToolOutputAvailable (toolCallId p) result#}, calls)"

text \<open>
  The body of the inner \<open>parts.map\<close> callback (lines 43-92). The events written and the
  executor calls made are collected as multisets: the callbacks of \<open>Promise.all\<close> run
  interleaved, so the code fixes no order among them. \<open>None\<close> is a rejected promise.
\<close>

definition processPart ::
  "approval \<Rightarrow> (message list \<Rightarrow> 'mm option) \<Rightarrow> 'mm registry \<Rightarrow> message list \<Rightarrow> part
     \<Rightarrow> (part, 'mm) resolved" where
  "processPart ap convertToModelMessages executions messages p =
     (if \<not> isStaticToolUIPart p then unchanged p
      else
        let toolName = toolNameOf p in
        if executions toolName = None \<or> state p \<noteq> ''output-available'' then unchanged p
        else if p_output p = JStr (YES ap) then
          (case executions toolName of
             None \<Rightarrow> unchanged p
           | Some (Fn toolInstance) \<Rightarrow>
               (case convertToModelMessages messages of
                  None \<Rightarrow> None
                | Some mm \<Rightarrow>
                    (case toolInstance (p_input p) (mm, toolCallId p) of
                       None \<Rightarrow> None
                     | Some result \<Rightarrow>
                         forward p result {#(toolName, p_input p, mm, toolCallId p)#}))
           | Some Falsy \<Rightarrow> forward p (JStr ''Error: No execute function found on tool'') {#}
           | Some TruthyNonFunction \<Rightarrow> None)
        else if p_output p = JStr (NO ap) then
          forward p (JStr ''Error: User denied access to tool execution'') {#}
        else unchanged p)"

text \<open>\<open>Promise.all(xs.map(f))\<close>: every result in order, or a rejection.\<close>

fun promise_all :: "('a \<Rightarrow> ('b, 'mm) resolved) \<Rightarrow> 'a list \<Rightarrow> ('b list, 'mm) resolved" where
  "promise_all f [] = Some ([], {#}, {#})"
| "promise_all f (x # xs) =
     (case f x of
        None \<Rightarrow> None
      | Some (y, es, cs) \<Rightarrow>
          (case promise_all f xs of
             None \<Rightarrow> None
           | Some (ys, es', cs') \<Rightarrow> Some (y # ys, es + es', cs + cs')))"

text \<open>The body of the outer \<open>messages.map\<close> callback (lines 38-96).\<close>

definition processMessage ::
  "approval \<Rightarrow> (message list \<Rightarrow> 'mm option) \<Rightarrow> 'mm registry \<Rightarrow> message list \<Rightarrow> message
     \<Rightarrow> (message, 'mm) resolved" where
  "processMessage ap convertToModelMessages executions messages m =
     (case parts m of
        None \<Rightarrow> unchanged m
      | Some ps \<Rightarrow>
          (case promise_all (processPart ap convertToModelMessages executions messages) ps of
             None \<Rightarrow> None
           | Some (ps', es, cs) \<Rightarrow> Some (m\<lparr>parts := Some ps'\<rparr>, es, cs)))"

definition processToolCalls ::
  "approval \<Rightarrow> (message list \<Rightarrow> 'mm option) \<Rightarrow> 'mm registry \<Rightarrow> message list
     \<Rightarrow> (message list, 'mm) resolved" where
  "processToolCalls ap convertToModelMessages executions messages =
     promise_all (processMessage ap convertToModelMessages executions messages) messages"

text \<open>\<open>cleanupMessages\<close> (lines 215-231).\<close>

definition incompleteToolCall :: "part \<Rightarrow> bool" where
  "incompleteToolCall p =
     (if \<not> isStaticToolUIPart p then False
      else state p = ''input-streaming'' \<or>
           (state p = ''input-available'' \<and> \<not> truthy (p_output p) \<and> \<not> truthy (errorText p)))"

definition hasIncompleteToolCall :: "message \<Rightarrow> bool" where
  "hasIncompleteToolCall m =
     (case parts m of None \<Rightarrow> False | Some ps \<Rightarrow> list_ex incompleteToolCall ps)"

definition cleanupMessages :: "message list \<Rightarrow> message list" where
  "cleanupMessages messages = filter (\<lambda>m. \<not> hasIncompleteToolCall m) messages"


section \<open>Observing a run of the resolver\<close>

definition partsOf :: "message \<Rightarrow> part list" where
  "partsOf m = (case parts m of None \<Rightarrow> [] | Some ps \<Rightarrow> ps)"

definition allParts :: "message list \<Rightarrow> part list" where
  "allParts ms = concat (map partsOf ms)"

text \<open>The events written and the executor calls made by one callback.\<close>

definition eventsOf :: "('a \<Rightarrow> ('b, 'mm) resolved) \<Rightarrow> 'a \<Rightarrow> event multiset" where
  "eventsOf f x = (case f x of None \<Rightarrow> {#} | Some (y, es, cs) \<Rightarrow> es)"

definition callsOf :: "('a \<Rightarrow> ('b, 'mm) resolved) \<Rightarrow> 'a \<Rightarrow> 'mm call multiset" where
  "callsOf f x = (case f x of None \<Rightarrow> {#} | Some (y, es, cs) \<Rightarrow> cs)"

fun eventId :: "event \<Rightarrow> string" where
  "eventId (ToolOutputAvailable cid v) = cid"

definition callId :: "'mm call \<Rightarrow> string" where
  "callId c = snd (snd (snd c))"

section \<open>Object literals as registries\<close>

text \<open>
  The own property names of \<open>Object.prototype\<close> (ECMAScript, including Annex B). An
  object literal inherits them, and both \<open>key in obj\<close> and \<open>obj[key]\<close> see
  inherited properties.
\<close>

definition object_prototype_keys :: "string list" where
  "object_prototype_keys =
     [''constructor'', ''__defineGetter__'', ''__defineSetter__'', ''hasOwnProperty'',
      ''__lookupGetter__'', ''__lookupSetter__'', ''isPrototypeOf'', ''propertyIsEnumerable'',
      ''toString'', ''valueOf'', ''__proto__'', ''toLocaleString'']"

text \<open>
  The registry that an object literal \<open>{name: executor, ...}\<close> denotes. What an
  inherited property evaluates to is left open: it is the parameter \<open>inherited\<close>.
  \<open>executions: {}\<close> of \<open>FlightAgent.onChatMessage\<close> is \<open>object_literal inherited []\<close>.
\<close>

definition object_literal ::
  "(string \<Rightarrow> 'mm slot) \<Rightarrow> (string \<times> 'mm executor) list \<Rightarrow> 'mm registry" where
  "object_literal inherited props k =
     (case map_of props k of
        Some f \<Rightarrow> Some (Fn f)
      | None \<Rightarrow> if k \<in> set object_prototype_keys then Some (inherited k) else None)"

section \<open>Example data\<close>

definition approvalTokens :: approval where
  "approvalTokens = \<lparr>YES = ''Yes, confirmed.'', NO = ''No, denied.''\<rparr>"

definition toolPart :: "string \<Rightarrow> string \<Rightarrow> jsval \<Rightarrow> part" where
  "toolPart ty st out = \<lparr>ptype = ty, toolCallId = ''call-1'', state = st,
     p_input = JObj [(''city'', JStr ''Paris'')], p_output = out, errorText = JUndefined,
     rest = []\<rparr>"

definition weatherPart :: "jsval \<Rightarrow> part" where
  "weatherPart out = toolPart ''tool-getWeather'' ''output-available'' out"

definition assistantMessage :: "part list \<Rightarrow> message" where
  "assistantMessage ps = \<lparr>mid = ''m1'', role = ''assistant'', metadata = JUndefined,
     parts = Some ps\<rparr>"

definition textPart :: part where
  "textPart = \<lparr>ptype = ''text'', toolCallId = [], state = [], p_input = JUndefined,
     p_output = JUndefined, errorText = JUndefined,
     rest = [(''text'', JStr ''Weather in Paris?'')]\<rparr>"

definition userMessage :: message where
  "userMessage = \<lparr>mid = ''m0'', role = ''user'', metadata = JUndefined,
     parts = Some [textPart]\<rparr>"

definition weatherMessage :: "jsval \<Rightarrow> message" where
  "weatherMessage out = assistantMessage [weatherPart out]"

definition getWeather :: "message list executor" where
  "getWeather args ctx = Some (JStr ''22C, sunny'')"

definition weatherRegistry :: "message list registry" where
  "weatherRegistry = object_literal (\<lambda>k. TruthyNonFunction) [(''getWeather'', getWeather)]"

text \<open>An executor whose result is the text that a denial produces.\<close>

definition refusingTool :: "message list executor" where
  "refusingTool args ctx = Some (JStr ''Error: User denied access to tool execution'')"

definition refusingRegistry :: "message list registry" where
  "refusingRegistry = object_literal (\<lambda>k. TruthyNonFunction) [(''getWeather'', refusingTool)]"

section \<open>JavaScript operations used by the flight formatter\<close>

text \<open>
  The result of evaluating JavaScript code: a value, a thrown \<open>TypeError\<close>, or
  \<open>Beyond\<close> where the behaviour leaves the values of \<open>jsval\<close> (a built-in function read as
  a property, a number that is not a safe integer, a string cut inside a character).
\<close>

datatype 'a outcome = Ret 'a | Throw | Beyond

fun bindO :: "'a outcome \<Rightarrow> ('a \<Rightarrow> 'b outcome) \<Rightarrow> 'b outcome" where
  "bindO (Ret x) f = f x"
| "bindO Throw f = Throw"
| "bindO Beyond f = Beyond"

text \<open>
  Strings are byte lists holding UTF-8. The three characters outside ASCII that the
  formatter prints: the euro sign, the right arrow and the bullet.
\<close>

definition euro :: string where
  "euro = [CHR 0xE2, CHR 0x82, CHR 0xAC]"

definition arrow :: string where
  "arrow = [CHR 0xE2, CHR 0x86, CHR 0x92]"

definition bullet :: string where
  "bullet = [CHR 0xE2, CHR 0x80, CHR 0xA2]"

definition isAscii :: "char \<Rightarrow> bool" where
  "isAscii c = (of_char c < (128::nat))"

definition isDigit :: "char \<Rightarrow> bool" where
  "isDigit c = (c \<in> set ''0123456789'')"

definition digitVal :: "char \<Rightarrow> nat" where
  "digitVal c = of_char c - 48"

definition digitChar :: "nat \<Rightarrow> char" where
  "digitChar d = ''0123456789'' ! d"

function showNat :: "nat \<Rightarrow> string" where
  "showNat n = (if n < 10 then [digitChar n] else showNat (n div 10) @ [digitChar (n mod 10)])"
  by pat_completeness auto
termination
  by (relation "measure id") auto

declare showNat.simps [simp del]

text \<open>
  \<open>x.name\<close> for the property names that the formatter reads by name; none of them is a
  property of a built-in prototype. Reading a property of \<open>undefined\<close> or \<open>null\<close> throws.
\<close>

fun getProp :: "jsval \<Rightarrow> string \<Rightarrow> jsval outcome" where
  "getProp JUndefined k = Throw"
| "getProp JNull k = Throw"
| "getProp (JObj kvs) k = Ret (case map_of kvs k of Some v \<Rightarrow> v | None \<Rightarrow> JUndefined)"
| "getProp v k = Ret JUndefined"

text \<open>\<open>x.length\<close> of a value that is neither \<open>undefined\<close> nor \<open>null\<close>.\<close>

fun getLength :: "jsval \<Rightarrow> jsval outcome" where
  "getLength JUndefined = Throw"
| "getLength JNull = Throw"
| "getLength (JArr xs) = Ret (JNum (int (length xs)))"
| "getLength (JStr s) = (if list_all isAscii s then Ret (JNum (int (length s))) else Beyond)"
| "getLength (JObj kvs) = Ret (case map_of kvs ''length'' of Some v \<Rightarrow> v | None \<Rightarrow> JUndefined)"
| "getLength v = Ret JUndefined"

text \<open>\<open>x[0]\<close> of a value that is neither \<open>undefined\<close> nor \<open>null\<close>.\<close>

fun getIndex0 :: "jsval \<Rightarrow> jsval outcome" where
  "getIndex0 JUndefined = Throw"
| "getIndex0 JNull = Throw"
| "getIndex0 (JArr xs) = Ret (case xs of [] \<Rightarrow> JUndefined | x # _ \<Rightarrow> x)"
| "getIndex0 (JStr s) =
     (case s of [] \<Rightarrow> Ret JUndefined | c # _ \<Rightarrow> if isAscii c then Ret (JStr [c]) else Beyond)"
| "getIndex0 (JObj kvs) = Ret (case map_of kvs ''0'' of Some v \<Rightarrow> v | None \<Rightarrow> JUndefined)"
| "getIndex0 v = Ret JUndefined"

text \<open>The values that \<open>for (const x of v)\<close> visits; a value that is not iterable throws.\<close>

fun iterate :: "jsval \<Rightarrow> jsval list outcome" where
  "iterate (JArr xs) = Ret xs"
| "iterate (JStr s) = (if list_all isAscii s then Ret (map (\<lambda>c. JStr [c]) s) else Beyond)"
| "iterate v = Throw"

text \<open>
  String conversion, as a template literal applies it. An array joins its elements with
  commas, \<open>undefined\<close> and \<open>null\<close> elements giving the empty string. A plain object gives
  \<open>[object Object]\<close> through the inherited \<open>toString\<close>; when it has an own property
  \<open>toString\<close> (a value of \<open>jsval\<close>, so not callable) the conversion throws.
\<close>

fun toStr :: "jsval \<Rightarrow> string outcome"
  and joinStr :: "jsval list \<Rightarrow> string outcome"
  and elemStr :: "jsval \<Rightarrow> string outcome" where
  "toStr JUndefined = Ret ''undefined''"
| "toStr JNull = Ret ''null''"
| "toStr (JBool b) = Ret (if b then ''true'' else ''false'')"
| "toStr (JNum i) =
     (if \<bar>i\<bar> > 9007199254740991 then Beyond
      else Ret (if i < 0 then ''-'' @ showNat (nat (- i)) else showNat (nat i)))"
| "toStr (JStr s) = Ret s"
| "toStr (JArr xs) = joinStr xs"
| "toStr (JObj kvs) =
     (if map_of kvs ''toString'' \<noteq> None then Throw else Ret ''[object Object]'')"
| "joinStr [] = Ret []"
| "joinStr [x] = elemStr x"
| "joinStr (x # y # ys) =
     bindO (elemStr x) (\<lambda>a. bindO (joinStr (y # ys)) (\<lambda>b. Ret (a @ '','' @ b)))"
| "elemStr JUndefined = Ret []"
| "elemStr JNull = Ret []"
| "elemStr v = toStr v"

text \<open>
  \<open>obj[key]\<close> for a computed key. The key is converted to a string. An own property of a
  plain object is returned; a name that \<open>Object.prototype\<close> defines gives a built-in, and so
  does any lookup in a value that is not a plain object: both are \<open>Beyond\<close>.
\<close>

definition getComputed :: "jsval \<Rightarrow> jsval \<Rightarrow> jsval outcome" where
  "getComputed obj key =
     bindO (toStr key) (\<lambda>k.
       case obj of
         JObj kvs \<Rightarrow>
           (case map_of kvs k of
              Some v \<Rightarrow> Ret v
            | None \<Rightarrow> if k \<in> set object_prototype_keys then Beyond else Ret JUndefined)
       | JUndefined \<Rightarrow> Throw
       | JNull \<Rightarrow> Throw
       | _ \<Rightarrow> Beyond)"

text \<open>\<open>s.split(sep)\<close> for a non-empty separator string.\<close>

fun splitOn :: "string \<Rightarrow> string \<Rightarrow> string \<Rightarrow> string list" where
  "splitOn sep acc [] = [rev acc]"
| "splitOn sep acc (c # cs) =
     (if sep \<noteq> [] \<and> prefix sep (c # cs)
      then rev acc # splitOn sep [] (drop (length sep - 1) cs)
      else splitOn sep (c # acc) cs)"

text \<open>
  \<open>v.split(" at ")[1] || v\<close> (lines 179, 181, 192, 195): calling \<open>split\<close> on anything but
  a string throws.
\<close>

definition afterAt :: "jsval \<Rightarrow> string outcome" where
  "afterAt v =
     (case v of
        JStr s \<Rightarrow>
          (case splitOn '' at '' [] s of
             a # b # _ \<Rightarrow> Ret (if b \<noteq> [] then b else s)
           | _ \<Rightarrow> Ret s)
      | _ \<Rightarrow> Throw)"

text \<open>\<open>s.trim()\<close> on the whitespace of ASCII.\<close>

definition isSpace :: "char \<Rightarrow> bool" where
  "isSpace c = (c \<in> set [CHR '' '', CHR 0x09, CHR 0x0A, CHR 0x0B, CHR 0x0C, CHR 0x0D])"

definition trim :: "string \<Rightarrow> string" where
  "trim s = rev (dropWhile isSpace (rev (dropWhile isSpace s)))"

section \<open>The flight formatter (src/src/utils.ts, lines 105-209)\<close>

text \<open>
  \<open>formatTime\<close>: the regular expression
  \<open>/(\d{4})-(\d{2})-(\d{2})T(\d{2}):(\d{2})/\<close> is searched from the left;
  \<open>matchTime\<close> tries it at the start of a string and returns the groups for hours and
  minutes.
\<close>

definition matchTime :: "string \<Rightarrow> (string \<times> string) option" where
  "matchTime s =
     (if 16 \<le> length s \<and>
         list_all isDigit (take 4 s) \<and> s ! 4 = CHR ''-'' \<and>
         list_all isDigit (take 2 (drop 5 s)) \<and> s ! 7 = CHR ''-'' \<and>
         list_all isDigit (take 2 (drop 8 s)) \<and> s ! 10 = CHR ''T'' \<and>
         list_all isDigit (take 2 (drop 11 s)) \<and> s ! 13 = CHR '':'' \<and>
         list_all isDigit (take 2 (drop 14 s))
      then Some (take 2 (drop 11 s), take 2 (drop 14 s)) else None)"

fun searchTime :: "string \<Rightarrow> (string \<times> string) option" where
  "searchTime [] = None"
| "searchTime (c # cs) =
     (case matchTime (c # cs) of Some r \<Rightarrow> Some r | None \<Rightarrow> searchTime cs)"

text \<open>\<open>parseInt(s, 10)\<close> on a string of digits.\<close>

definition parseInt :: "string \<Rightarrow> nat" where
  "parseInt s = foldl (\<lambda>n c. 10 * n + digitVal c) 0 s"

definition formatTime :: "string \<Rightarrow> string" where
  "formatTime isoString =
     (case searchTime isoString of
        None \<Rightarrow> isoString
      | Some (hours, minutes) \<Rightarrow>
          let hour = parseInt hours;
              ampm = (if hour \<ge> 12 then ''PM'' else ''AM'');
              hour12 = (if hour mod 12 = 0 then 12 else hour mod 12)
          in showNat hour12 @ '':'' @ minutes @ '' '' @ ampm)"

text \<open>
  \<open>formatDuration\<close>: the regular expression \<open>/PT(?:(\d+)H)?(?:(\d+)M)?/\<close> matches at
  the first \<open>PT\<close>, both groups being optional. \<open>digitsThen x r\<close> is the group
  \<open>(\d+)x\<close> at the start of \<open>r\<close>: the digits and what follows the letter.
  An argument that is not a string has no method \<open>match\<close>: the call throws.
\<close>

fun searchPT :: "string \<Rightarrow> string option" where
  "searchPT [] = None"
| "searchPT (c # cs) = (if prefix ''PT'' (c # cs) then Some (drop 1 cs) else searchPT cs)"

definition digitsThen :: "char \<Rightarrow> string \<Rightarrow> (string \<times> string) option" where
  "digitsThen x r =
     (let ds = takeWhile isDigit r; after = dropWhile isDigit r
      in if ds \<noteq> [] \<and> after \<noteq> [] \<and> hd after = x then Some (ds, tl after) else None)"

definition formatDuration :: "jsval \<Rightarrow> string outcome" where
  "formatDuration isoDuration =
     (case isoDuration of
        JStr s \<Rightarrow>
          (case searchPT s of
             None \<Rightarrow> Ret s
           | Some r \<Rightarrow>
               let g1 = digitsThen CHR ''H'' r;
                   r' = (case g1 of Some (ds, after) \<Rightarrow> after | None \<Rightarrow> r);
                   g2 = digitsThen CHR ''M'' r';
                   hours = (case g1 of Some (ds, after) \<Rightarrow> ds @ ''h'' | None \<Rightarrow> []);
                   minutes = (case g2 of Some (ds, after) \<Rightarrow> ds @ ''m'' | None \<Rightarrow> [])
               in Ret (trim (hours @ '' '' @ minutes)))
      | _ \<Rightarrow> Throw)"

text \<open>\<open>lines.join("\n")\<close>.\<close>

fun joinLines :: "string list \<Rightarrow> string" where
  "joinLines [] = []"
| "joinLines [x] = x"
| "joinLines (x # y # ys) = x @ [CHR 0x0A] @ joinLines (y # ys)"

text \<open>A \<open>for ... of\<close> loop whose body appends to \<open>lines\<close> and may throw.\<close>

fun forEach ::
  "('a \<Rightarrow> string list \<Rightarrow> string list outcome) \<Rightarrow> 'a list \<Rightarrow> string list \<Rightarrow> string list outcome" where
  "forEach body [] lines = Ret lines"
| "forEach body (x # xs) lines = bindO (body x lines) (forEach body xs)"

text \<open>\<open>a || b\<close>.\<close>

definition orElse :: "jsval \<Rightarrow> jsval \<Rightarrow> jsval" where
  "orElse a b = (if truthy a then a else b)"

text \<open>Line 170: the price of an offer.\<close>

definition renderPrice :: "jsval \<Rightarrow> string outcome" where
  "renderPrice offer =
     bindO (getProp offer ''price'') (\<lambda>price.
     bindO (getProp price ''currency'') (\<lambda>currency.
     bindO (getProp price ''total'') (\<lambda>total.
     bindO (toStr total) (\<lambda>t.
       Ret ((if currency = JStr ''EUR'' then euro else ''$'') @ t)))))"

text \<open>Lines 191-199: the line of one segment of an itinerary with several segments.\<close>

definition segmentLine :: "jsval \<Rightarrow> string list \<Rightarrow> string list outcome" where
  "segmentLine seg lines =
     bindO (getProp seg ''departure'') (\<lambda>d. bindO (afterAt d) (\<lambda>dep.
     bindO (getProp seg ''arrival'') (\<lambda>a. bindO (afterAt a) (\<lambda>arr.
     bindO (getProp seg ''flightNumber'') (\<lambda>fn. bindO (toStr fn) (\<lambda>flightNumber.
     bindO (getProp seg ''duration'') (\<lambda>du. bindO (formatDuration du) (\<lambda>duration.
       Ret (lines @
         [''  '' @ flightNumber @ '': '' @ formatTime dep @ '' '' @ arrow @ '' '' @
            formatTime arr @ '' ('' @ duration @ '')'']
       )))))))))"

text \<open>Lines 177-187: the lines of an itinerary with one segment.\<close>

definition nonstopLines ::
  "jsval \<Rightarrow> jsval \<Rightarrow> string \<Rightarrow> string \<Rightarrow> jsval \<Rightarrow> string list \<Rightarrow> string list outcome" where
  "nonstopLines offer airlineName price totalDuration segments lines =
     bindO (getIndex0 segments) (\<lambda>seg.
     bindO (getProp seg ''departure'') (\<lambda>d. bindO (afterAt d) (\<lambda>dep.
     bindO (getProp seg ''arrival'') (\<lambda>a. bindO (afterAt a) (\<lambda>arr.
     bindO (toStr airlineName) (\<lambda>name.
     bindO (getProp seg ''flightNumber'') (\<lambda>fn. bindO (toStr fn) (\<lambda>flightNumber.
     bindO (getProp offer ''seatsAvailable'') (\<lambda>sa. bindO (toStr sa) (\<lambda>seats.
       Ret (lines @
         [bullet @ '' '' @ name @ '' '' @ flightNumber @ '' - '' @ price,
          ''  Departs: '' @ formatTime dep @ '' '' @ arrow @ '' Arrives: '' @ formatTime arr @
            '' ('' @ totalDuration @ '', nonstop)'',
          ''  Seats available: '' @ seats,
          ''''])
     ))))))))))"

text \<open>Lines 189-203: the lines of an itinerary with any other number of segments.\<close>

definition multiSegmentLines ::
  "jsval \<Rightarrow> jsval \<Rightarrow> string \<Rightarrow> string \<Rightarrow> jsval \<Rightarrow> jsval \<Rightarrow> string list
     \<Rightarrow> string list outcome" where
  "multiSegmentLines offer airlineName price totalDuration segments len lines =
     bindO (toStr airlineName) (\<lambda>name. bindO (toStr len) (\<lambda>n.
     bindO (iterate segments) (\<lambda>segs.
     bindO (forEach segmentLine segs
              (lines @ [bullet @ '' '' @ name @ '' - '' @ price @ '' ('' @ n @ '' stops)'']))
       (\<lambda>lines'.
     bindO (getProp offer ''seatsAvailable'') (\<lambda>sa. bindO (toStr sa) (\<lambda>seats.
       Ret (lines' @
         [''  Total duration: '' @ totalDuration,
          ''  Seats available: '' @ seats,
          ''''])
     ))))))"

text \<open>Lines 173-204: the body of the loop over the itineraries of an offer.\<close>

definition itineraryLines ::
  "jsval \<Rightarrow> jsval \<Rightarrow> string \<Rightarrow> jsval \<Rightarrow> string list \<Rightarrow> string list outcome" where
  "itineraryLines offer airlineName price itinerary lines =
     bindO (getProp itinerary ''duration'') (\<lambda>du. bindO (formatDuration du) (\<lambda>totalDuration.
     bindO (getProp itinerary ''segments'') (\<lambda>sg.
     let segments = orElse sg (JArr []) in
     bindO (getLength segments) (\<lambda>len.
       if len = JNum 1
       then nonstopLines offer airlineName price totalDuration segments lines
       else multiSegmentLines offer airlineName price totalDuration segments len lines))))"

text \<open>Lines 167-206: the body of the loop over the offers.\<close>

definition offerLines :: "jsval \<Rightarrow> jsval \<Rightarrow> string list \<Rightarrow> string list outcome" where
  "offerLines carriers offer lines =
     bindO (getProp offer ''airlines'') (\<lambda>airlines.
     bindO (if airlines = JUndefined \<or> airlines = JNull then Ret JUndefined
            else getIndex0 airlines) (\<lambda>first.
     let airlineCode = orElse first (JStr ''Unknown'') in
     bindO (getComputed carriers airlineCode) (\<lambda>found.
     let airlineName = orElse found airlineCode in
     bindO (renderPrice offer) (\<lambda>price.
     bindO (getProp offer ''itineraries'') (\<lambda>its.
     bindO (iterate (orElse its (JArr []))) (\<lambda>itineraries.
       forEach (itineraryLines offer airlineName price) itineraries lines))))))"

text \<open>
  \<open>formatFlightResults\<close>. \<open>JSON.stringify\<close> is a parameter: it returns a string, or
  \<open>undefined\<close> for \<open>undefined\<close>.
\<close>

definition formatFlightResults :: "(jsval \<Rightarrow> jsval) \<Rightarrow> jsval \<Rightarrow> jsval outcome" where
  "formatFlightResults stringify data =
     (case data of
        JObj kvs \<Rightarrow>
          (case map_of kvs ''offers'' of
             Some (JArr offers) \<Rightarrow>
               let dictionaries = (case map_of kvs ''dictionaries'' of Some v \<Rightarrow> v | None \<Rightarrow> JUndefined);
                   totalOffers = (case map_of kvs ''totalOffers'' of Some v \<Rightarrow> v | None \<Rightarrow> JUndefined)
               in
               bindO (if dictionaries = JUndefined \<or> dictionaries = JNull then Ret JUndefined
                      else getProp dictionaries ''carriers'') (\<lambda>c.
               let carriers = orElse c (JObj []) in
               bindO (toStr (orElse totalOffers (JNum (int (length offers))))) (\<lambda>n.
               bindO (forEach (offerLines carriers) offers
                        [''Found '' @ n @ '' flights:'' @ [CHR 0x0A]]) (\<lambda>lines.
                 Ret (JStr (joinLines lines)))))
           | _ \<Rightarrow> Ret (stringify data))
      | _ \<Rightarrow> Ret (stringify data))"

section \<open>Scenario D\<close>

definition scenarioItinerary :: jsval where
  "scenarioItinerary =
     JObj [(''duration'', JStr ''PT2H30M''),
           (''segments'', JArr [JObj
              [(''departure'', JStr ''... at 2024-01-01T09:00''),
               (''arrival'', JStr ''... at 2024-01-01T11:30''),
               (''carrier'', JStr ''AB''),
               (''flightNumber'', JStr ''AB123''),
               (''duration'', JStr ''PT2H30M''),
               (''stops'', JNum 0)]])]"

definition scenarioOffer :: "string \<Rightarrow> jsval" where
  "scenarioOffer currency =
     JObj [(''offerId'', JStr ''1''),
           (''price'', JObj [(''total'', JStr ''100''), (''currency'', JStr currency)]),
           (''airlines'', JArr [JStr ''AB'']),
           (''itineraries'', JArr [scenarioItinerary]),
           (''seatsAvailable'', JNum 3)]"

definition scenarioD :: "string \<Rightarrow> jsval" where
  "scenarioD currency =
     JObj [(''totalOffers'', JNum 1),
           (''offers'', JArr [scenarioOffer currency]),
           (''dictionaries'', JObj [(''carriers'', JObj [(''AB'', JStr ''Air Bravo'')])])]"

text \<open>The text that the formatter returns for scenario D, the price sign being \<open>sign\<close>.\<close>

definition scenarioText :: "string \<Rightarrow> string" where
  "scenarioText sign =
     joinLines
       [''Found 1 flights:'' @ [CHR 0x0A],
        bullet @ '' Air Bravo AB123 - '' @ sign @ ''100'',
        ''  Departs: 9:00 AM '' @ arrow @ '' Arrives: 11:30 AM (2h 30m, nonstop)'',
        ''  Seats available: 3'',
        '''']"

text \<open>\<open>text.includes(s)\<close>.\<close>

fun includesStr :: "string \<Rightarrow> string \<Rightarrow> bool" where
  "includesStr [] s = (s = [])"
| "includesStr (c # cs) s = (prefix s (c # cs) \<or> includesStr cs s)"

section \<open>Properties of the approval resolver\<close>

lemma replace_first_prefix: "prefix pat s \<Longrightarrow> replace_first pat rep s = rep @ drop (length pat) s"
  by (cases s) auto

lemma promise_all_length:
  "promise_all f xs = Some (ys, es, cs) \<Longrightarrow> length ys = length xs"
  by (induction xs arbitrary: ys es cs) (auto split: option.splits prod.splits)

lemma promise_all_nth:
  "promise_all f xs = Some (ys, es, cs) \<Longrightarrow> i < length xs \<Longrightarrow>
     \<exists>e c. f (xs ! i) = Some (ys ! i, e, c) \<and> e \<subseteq># es \<and> c \<subseteq># cs"
proof (induction xs arbitrary: ys es cs i)
  case Nil
  then show ?case by simp
next
  case (Cons x xs)
  from Cons.prems(1) obtain y e c ys' es' cs' where
    fx: "f x = Some (y, e, c)" and rec: "promise_all f xs = Some (ys', es', cs')"
    and eqs: "ys = y # ys'" "es = e + es'" "cs = c + cs'"
    by (auto split: option.splits prod.splits)
  show ?case
  proof (cases i)
    case 0
    with fx eqs show ?thesis by simp
  next
    case (Suc k)
    with Cons.prems(2) have "k < length xs" by simp
    from Cons.IH[OF rec this] obtain e' c' where
      "f (xs ! k) = Some (ys' ! k, e', c')" "e' \<subseteq># es'" "c' \<subseteq># cs'" by blast
    with Suc eqs show ?thesis
      by (auto intro: subset_mset.add_increasing)
  qed
qed

lemma promise_all_unchanged:
  "(\<And>x. x \<in> set xs \<Longrightarrow> f x = unchanged x) \<Longrightarrow> promise_all f xs = unchanged xs"
  by (induction xs) (auto simp: unchanged_def)

lemma processMessage_Some:
  assumes "processMessage ap conv ex ms m = Some (m', e, c)" and "parts m = Some ps"
  shows "\<exists>ps'. promise_all (processPart ap conv ex ms) ps = Some (ps', e, c) \<and>
           m' = m\<lparr>parts := Some ps'\<rparr> \<and> parts m' = Some ps'"
proof (cases "promise_all (processPart ap conv ex ms) ps")
  case None
  with assms show ?thesis by (simp add: processMessage_def)
next
  case (Some t)
  obtain ps' e' c' where t: "t = (ps', e', c')" by (cases t)
  with Some assms have "m' = m\<lparr>parts := Some ps'\<rparr>" "e' = e" "c' = c"
    by (simp_all add: processMessage_def)
  with Some t show ?thesis by simp
qed

lemma processToolCalls_nth:
  assumes "processToolCalls ap conv ex ms = Some (ms', es, cs)"
    and "i < length ms" and "parts (ms ! i) = Some ps" and "j < length ps"
  shows "\<exists>ps' e c. parts (ms' ! i) = Some ps' \<and> length ps' = length ps \<and>
           processPart ap conv ex ms (ps ! j) = Some (ps' ! j, e, c) \<and> e \<subseteq># es \<and> c \<subseteq># cs"
proof -
  from promise_all_nth[OF assms(1)[unfolded processToolCalls_def] assms(2)]
  obtain e c where m: "processMessage ap conv ex ms (ms ! i) = Some (ms' ! i, e, c)"
    and sub: "e \<subseteq># es" "c \<subseteq># cs" by blast
  from m assms(3) obtain ps' where
    pa: "promise_all (processPart ap conv ex ms) ps = Some (ps', e, c)"
    and m': "ms' ! i = (ms ! i)\<lparr>parts := Some ps'\<rparr>"
    by (auto simp: processMessage_def split: option.splits prod.splits)
  from promise_all_nth[OF pa assms(4)] obtain e' c' where
    "processPart ap conv ex ms (ps ! j) = Some (ps' ! j, e', c')" "e' \<subseteq># e" "c' \<subseteq># c" by blast
  with sub m' promise_all_length[OF pa] show ?thesis
    by (auto intro: subset_mset.order_trans)
qed

lemma processPart_unchanged_cases:
  assumes "\<not> isStaticToolUIPart p \<or> ex (toolNameOf p) = None \<or> state p \<noteq> ''output-available''
           \<or> (p_output p \<noteq> JStr (YES ap) \<and> p_output p \<noteq> JStr (NO ap))"
  shows "processPart ap conv ex ms p = unchanged p"
  using assms by (auto simp: processPart_def toolNameOf_def Let_def split: option.splits slot.splits)

lemma promise_all_sum:
  "promise_all f xs = Some (ys, es, cs) \<Longrightarrow>
     es = sum_list (map (eventsOf f) xs) \<and> cs = sum_list (map (callsOf f) xs)"
  by (induction xs arbitrary: ys es cs)
     (auto simp: eventsOf_def callsOf_def split: option.splits prod.splits)

lemma processMessage_sum:
  assumes "processMessage ap conv ex ms m = Some (m', es, cs)"
  shows "es = sum_list (map (eventsOf (processPart ap conv ex ms)) (partsOf m)) \<and>
         cs = sum_list (map (callsOf (processPart ap conv ex ms)) (partsOf m))"
proof (cases "parts m")
  case None
  with assms show ?thesis by (simp add: processMessage_def unchanged_def partsOf_def)
next
  case (Some ps)
  with assms obtain ps' where "promise_all (processPart ap conv ex ms) ps = Some (ps', es, cs)"
    by (auto simp: processMessage_def split: option.splits prod.splits)
  from promise_all_sum[OF this] Some show ?thesis by (simp add: partsOf_def)
qed

lemma sum_list_concat_map:
  "sum_list (map g (concat xss)) = sum_list (map (\<lambda>xs. sum_list (map g xs)) xss)"
  for g :: "'a \<Rightarrow> 'b multiset"
  by (induction xss) auto

lemma processToolCalls_sum:
  assumes "processToolCalls ap conv ex ms = Some (ms', es, cs)"
  shows "es = sum_list (map (eventsOf (processPart ap conv ex ms)) (allParts ms)) \<and>
         cs = sum_list (map (callsOf (processPart ap conv ex ms)) (allParts ms))"
proof -
  let ?f = "processMessage ap conv ex ms"
  have all: "\<And>ys es cs. promise_all ?f xs = Some (ys, es, cs) \<Longrightarrow>
      es = sum_list (map (\<lambda>m. sum_list (map (eventsOf (processPart ap conv ex ms)) (partsOf m))) xs) \<and>
      cs = sum_list (map (\<lambda>m. sum_list (map (callsOf (processPart ap conv ex ms)) (partsOf m))) xs)" for xs
  proof (induction xs)
    case Nil
    then show ?case by simp
  next
    case (Cons x xs)
    from Cons.prems obtain y e c ys' es' cs' where
      fx: "?f x = Some (y, e, c)" and rec: "promise_all ?f xs = Some (ys', es', cs')"
      and eqs: "es = e + es'" "cs = c + cs'"
      by (auto split: option.splits prod.splits)
    from processMessage_sum[OF fx] Cons.IH[OF rec] eqs show ?case by simp
  qed
  from all[OF assms[unfolded processToolCalls_def]] show ?thesis
    by (simp add: allParts_def sum_list_concat_map comp_def)
qed

lemma filter_mset_sum_list:
  "filter_mset P (sum_list (map F xs)) = sum_list (map (\<lambda>x. filter_mset P (F x)) xs)"
  by (induction xs) auto

lemma sum_list_single_contributor:
  fixes F :: "'a \<Rightarrow> 'b multiset"
  assumes "distinct (map g (filter P xs))" and "x \<in> set xs" and "P x"
    and "\<And>q. q \<in> set xs \<Longrightarrow> \<not> (P q \<and> g q = g x) \<Longrightarrow> F q = {#}"
  shows "sum_list (map F xs) = F x"
  using assms
proof (induction xs)
  case Nil
  then show ?case by simp
next
  case (Cons y ys)
  show ?case
  proof (cases "P y \<and> g y = g x")
    case True
    with Cons.prems(1) have none: "\<And>q. q \<in> set ys \<Longrightarrow> \<not> (P q \<and> g q = g x)"
      by (auto simp: image_iff)
    have "sum_list (map F ys) = {#}"
      using none Cons.prems(4) by (induction ys) auto
    moreover have "y = x"
    proof (rule ccontr)
      assume "y \<noteq> x"
      with Cons.prems(2) have "x \<in> set ys" by simp
      with none Cons.prems(3) show False by blast
    qed
    ultimately show ?thesis by simp
  next
    case False
    with Cons.prems(2,3) have xin: "x \<in> set ys" by auto
    from False Cons.prems(4) have "F y = {#}" by simp
    moreover from False Cons.prems(1) have "distinct (map g (filter P ys))" by (auto split: if_splits)
    ultimately show ?thesis using Cons.IH[OF _ xin Cons.prems(3)] Cons.prems(4) by simp
  qed
qed

lemma processPart_ids:
  assumes "processPart ap conv ex ms q = Some (q', e, c)"
  shows "(\<forall>ev\<in>#e. eventId ev = toolCallId q) \<and> (\<forall>cl\<in>#c. callId cl = toolCallId q) \<and>
         (\<not> isStaticToolUIPart q \<longrightarrow> e = {#} \<and> c = {#})"
  using assms
  by (auto simp: processPart_def Let_def unchanged_def forward_def callId_def
           split: if_splits option.splits slot.splits)

lemma processPart_approved:
  assumes "processPart ap conv ex ms p = Some (p', e, c)"
    and "isStaticToolUIPart p" and "ex (toolNameOf p) = Some (Fn f)"
    and "state p = ''output-available''" and "p_output p = JStr (YES ap)"
  shows "\<exists>mm r. conv ms = Some mm \<and> f (p_input p) (mm, toolCallId p) = Some r \<and>
           p' = p\<lparr>p_output := r\<rparr> \<and> e = {#ToolOutputAvailable (toolCallId p) r#} \<and>
           c = {#(toolNameOf p, p_input p, mm, toolCallId p)#}"
  using assms
  by (auto simp: processPart_def Let_def forward_def toolNameOf_def split: option.splits)

lemma processPart_denied:
  assumes "isStaticToolUIPart p" and "ex (toolNameOf p) \<noteq> None"
    and "state p = ''output-available''" and "p_output p = JStr (NO ap)" and "NO ap \<noteq> YES ap"
  shows "processPart ap conv ex ms p =
           Some (p\<lparr>p_output := JStr ''Error: User denied access to tool execution''\<rparr>,
                 {#ToolOutputAvailable (toolCallId p) (JStr ''Error: User denied access to tool execution'')#},
                 {#})"
  using assms by (auto simp: processPart_def Let_def forward_def toolNameOf_def)

lemma processPart_frame:
  "processPart ap conv ex ms p = Some (p', e, c) \<Longrightarrow> p' = p\<lparr>p_output := p_output p'\<rparr>"
  by (auto simp: processPart_def Let_def unchanged_def forward_def
           split: if_splits option.splits slot.splits)

lemma filtered_events_of_part:
  assumes run: "processToolCalls ap conv ex ms = Some (ms', es, cs)"
    and ids: "distinct (map toolCallId (filter isStaticToolUIPart (allParts ms)))"
    and mem: "p \<in> set (allParts ms)" and st: "isStaticToolUIPart p"
    and pp: "processPart ap conv ex ms p = Some (p', e, c)"
  shows "{#ev \<in># es. eventId ev = toolCallId p#} = e \<and> {#cl \<in># cs. callId cl = toolCallId p#} = c"
proof -
  let ?pp = "processPart ap conv ex ms"
  let ?E = "\<lambda>q. {#ev \<in># eventsOf ?pp q. eventId ev = toolCallId p#}"
  let ?C = "\<lambda>q. {#cl \<in># callsOf ?pp q. callId cl = toolCallId p#}"
  have other: "?E q = {#} \<and> ?C q = {#}" if "\<not> (isStaticToolUIPart q \<and> toolCallId q = toolCallId p)" for q
  proof (cases "?pp q")
    case None
    then show ?thesis by (simp add: eventsOf_def callsOf_def)
  next
    case (Some t)
    then obtain q' e' c' where t: "?pp q = Some (q', e', c')" by (cases t) auto
    from processPart_ids[OF t] that show ?thesis
      by (auto simp: eventsOf_def callsOf_def t)
  qed
  have "sum_list (map ?E (allParts ms)) = ?E p"
    by (rule sum_list_single_contributor[OF ids mem st]) (use other in blast)
  moreover have "sum_list (map ?C (allParts ms)) = ?C p"
    by (rule sum_list_single_contributor[OF ids mem st]) (use other in blast)
  moreover from processPart_ids[OF pp] have "?E p = e" "?C p = c"
    by (auto simp: eventsOf_def callsOf_def pp filter_mset_eq_conv)
  ultimately show ?thesis
    using processToolCalls_sum[OF run] by (simp add: filter_mset_sum_list)
qed

lemma nth_allParts:
  "i < length ms \<Longrightarrow> parts (ms ! i) = Some ps \<Longrightarrow> j < length ps \<Longrightarrow> ps ! j \<in> set (allParts ms)"
  by (force simp: allParts_def partsOf_def in_set_conv_nth)

lemma promise_all_returns:
  "(\<And>x. x \<in> set xs \<Longrightarrow> f x \<noteq> None) \<Longrightarrow> promise_all f xs \<noteq> None"
  by (induction xs) (auto split: option.splits)

lemma processPart_returns:
  assumes conv: "conv ms = Some mm"
    and resolves: "\<And>g. isStaticToolUIPart p \<Longrightarrow> state p = ''output-available'' \<Longrightarrow>
        p_output p = JStr (YES ap) \<Longrightarrow> ex (toolNameOf p) = Some (Fn g) \<Longrightarrow>
        g (p_input p) (mm, toolCallId p) \<noteq> None"
    and callable: "isStaticToolUIPart p \<Longrightarrow> state p = ''output-available'' \<Longrightarrow>
        p_output p = JStr (YES ap) \<Longrightarrow> ex (toolNameOf p) \<noteq> Some TruthyNonFunction"
  shows "processPart ap conv ex ms p \<noteq> None"
proof (cases "isStaticToolUIPart p \<and> state p = ''output-available'' \<and> p_output p = JStr (YES ap)")
  case False
  then show ?thesis
    by (auto simp: processPart_def Let_def unchanged_def forward_def)
next
  case True
  show ?thesis
  proof (cases "ex (toolNameOf p)")
    case None
    then show ?thesis by (simp add: processPart_unchanged_cases unchanged_def)
  next
    case (Some sl)
    show ?thesis
    proof (cases sl)
      case (Fn g)
      with resolves[of g] True Some
      obtain r where "g (p_input p) (mm, toolCallId p) = Some r" by blast
      with Some Fn conv True show ?thesis
        by (simp add: processPart_def Let_def unchanged_def forward_def)
    next
      case Falsy
      with Some True show ?thesis
        by (simp add: processPart_def Let_def unchanged_def forward_def)
    next
      case TruthyNonFunction
      with Some callable True show ?thesis by blast
    qed
  qed
qed

lemma processToolCalls_returns:
  assumes conv: "conv ms = Some mm"
    and resolves: "\<And>q g. q \<in> set (allParts ms) \<Longrightarrow> isStaticToolUIPart q \<Longrightarrow>
        state q = ''output-available'' \<Longrightarrow> p_output q = JStr (YES ap) \<Longrightarrow>
        ex (toolNameOf q) = Some (Fn g) \<Longrightarrow> g (p_input q) (mm, toolCallId q) \<noteq> None"
    and callable: "\<And>q. q \<in> set (allParts ms) \<Longrightarrow> isStaticToolUIPart q \<Longrightarrow>
        state q = ''output-available'' \<Longrightarrow> p_output q = JStr (YES ap) \<Longrightarrow>
        ex (toolNameOf q) \<noteq> Some TruthyNonFunction"
  shows "\<exists>ms' es cs. processToolCalls ap conv ex ms = Some (ms', es, cs)"
proof -
  have p: "processPart ap conv ex ms q \<noteq> None" if "q \<in> set (allParts ms)" for q
    using conv resolves[OF that] callable[OF that] by (rule processPart_returns)
  have "processMessage ap conv ex ms m \<noteq> None" if m: "m \<in> set ms" for m
  proof (cases "parts m")
    case None
    then show ?thesis by (simp add: processMessage_def unchanged_def)
  next
    case (Some ps)
    with m have "set ps \<subseteq> set (allParts ms)"
      by (auto simp: allParts_def partsOf_def intro!: bexI[of _ m])
    with p have "promise_all (processPart ap conv ex ms) ps \<noteq> None"
      by (intro promise_all_returns) blast
    with Some show ?thesis by (auto simp: processMessage_def split: option.splits)
  qed
  then have "processToolCalls ap conv ex ms \<noteq> None"
    unfolding processToolCalls_def by (intro promise_all_returns)
  then show ?thesis by auto
qed

lemmas run_simps = processToolCalls_def processMessage_def processPart_def isStaticToolUIPart_def
  toolNameOf_def unchanged_def forward_def Let_def object_literal_def object_prototype_keys_def

lemmas example_simps = approvalTokens_def toolPart_def weatherPart_def assistantMessage_def
  weatherMessage_def getWeather_def weatherRegistry_def refusingTool_def refusingRegistry_def
  textPart_def userMessage_def

lemma weather_pos:
  "0 < length [weatherMessage out]" "parts ([weatherMessage out] ! 0) = Some [weatherPart out]"
  "0 < length [weatherPart out]"
  by (simp_all add: weatherMessage_def assistantMessage_def)

lemma weather_tool:
  "isStaticToolUIPart ([weatherPart out] ! 0)"
  "weatherRegistry (toolNameOf ([weatherPart out] ! 0)) = Some (Fn getWeather)"
  "state ([weatherPart out] ! 0) = ''output-available''"
  "p_output ([weatherPart out] ! 0) = out"
  by (simp_all add: run_simps example_simps)

lemma approved_part_run:
  assumes run: "processToolCalls ap conv ex ms = Some (ms', es, cs)"
    and pos: "i < length ms" "parts (ms ! i) = Some ps" "j < length ps"
    and tool: "isStaticToolUIPart (ps ! j)" "ex (toolNameOf (ps ! j)) = Some (Fn f)"
    and st: "state (ps ! j) = ''output-available''"
    and out: "p_output (ps ! j) = JStr (YES ap)"
  shows "\<exists>mm r ps'. conv ms = Some mm \<and> f (p_input (ps ! j)) (mm, toolCallId (ps ! j)) = Some r \<and>
           parts (ms' ! i) = Some ps' \<and> ps' ! j = (ps ! j)\<lparr>p_output := r\<rparr> \<and>
           eventsOf (processPart ap conv ex ms) (ps ! j) =
             {#ToolOutputAvailable (toolCallId (ps ! j)) r#} \<and>
           callsOf (processPart ap conv ex ms) (ps ! j) =
             {#(toolNameOf (ps ! j), p_input (ps ! j), mm, toolCallId (ps ! j))#} \<and>
           es = sum_list (map (eventsOf (processPart ap conv ex ms)) (allParts ms)) \<and>
           cs = sum_list (map (callsOf (processPart ap conv ex ms)) (allParts ms)) \<and>
           (distinct (map toolCallId (filter isStaticToolUIPart (allParts ms))) \<longrightarrow>
              {#ev \<in># es. eventId ev = toolCallId (ps ! j)#} =
                {#ToolOutputAvailable (toolCallId (ps ! j)) r#} \<and>
              {#cl \<in># cs. callId cl = toolCallId (ps ! j)#} =
                {#(toolNameOf (ps ! j), p_input (ps ! j), mm, toolCallId (ps ! j))#})"
proof -
  from processToolCalls_nth[OF run pos] obtain ps' e c where
    ps': "parts (ms' ! i) = Some ps'"
    and pp: "processPart ap conv ex ms (ps ! j) = Some (ps' ! j, e, c)" by blast
  from processPart_approved[OF pp tool st out] obtain mm r where
    a: "conv ms = Some mm" "f (p_input (ps ! j)) (mm, toolCallId (ps ! j)) = Some r"
       "ps' ! j = (ps ! j)\<lparr>p_output := r\<rparr>"
    and e: "e = {#ToolOutputAvailable (toolCallId (ps ! j)) r#}"
    and c: "c = {#(toolNameOf (ps ! j), p_input (ps ! j), mm, toolCallId (ps ! j))#}" by blast
  have own: "eventsOf (processPart ap conv ex ms) (ps ! j) = e"
      "callsOf (processPart ap conv ex ms) (ps ! j) = c"
    by (simp_all add: eventsOf_def callsOf_def pp)
  have unique: "{#ev \<in># es. eventId ev = toolCallId (ps ! j)#} = e \<and>
                {#cl \<in># cs. callId cl = toolCallId (ps ! j)#} = c"
    if "distinct (map toolCallId (filter isStaticToolUIPart (allParts ms)))"
    by (rule filtered_events_of_part[OF run that nth_allParts[OF pos] tool(1) pp])
  from a ps' own unique processToolCalls_sum[OF run] show ?thesis
    unfolding e c by blast
qed

text \<open>
  Claim C1. Let the projection of the message list succeed with \<open>mm\<close>, and let the
  executor of every approved part resolve. Take a static tool part of the input whose tool
  name has a registered executor \<open>f\<close>, whose state is \<open>output-available\<close> and whose
  output is the APPROVED token. Then the resolver returns a list; \<open>f\<close>, called on the
  part's input with the pair \<open>(mm, call id)\<close>, returned some \<open>r\<close>; the part at the
  same position of the returned list is the input part with output \<open>r\<close>; the callback of
  the part writes exactly one event, which announces \<open>r\<close> under the call id, and makes
  exactly one executor call, the one of \<open>f\<close>; the events and calls of the run are those
  of the callbacks of all parts. When the call ids of the tool parts are distinct, exactly one
  event and exactly one executor call of the whole run carry this call id. Scenario A, after a
  user message, is an instance.
\<close>

theorem approved_part_executed_once:
  assumes conv: "conv ms = Some mm"
    and resolves: "\<And>q g. q \<in> set (allParts ms) \<Longrightarrow> isStaticToolUIPart q \<Longrightarrow>
        state q = ''output-available'' \<Longrightarrow> p_output q = JStr (YES ap) \<Longrightarrow>
        ex (toolNameOf q) = Some (Fn g) \<Longrightarrow> g (p_input q) (mm, toolCallId q) \<noteq> None"
    and callable: "\<And>q. q \<in> set (allParts ms) \<Longrightarrow> isStaticToolUIPart q \<Longrightarrow>
        state q = ''output-available'' \<Longrightarrow> p_output q = JStr (YES ap) \<Longrightarrow>
        ex (toolNameOf q) \<noteq> Some TruthyNonFunction"
    and pos: "i < length ms" "parts (ms ! i) = Some ps" "j < length ps"
    and tool: "isStaticToolUIPart (ps ! j)" "ex (toolNameOf (ps ! j)) = Some (Fn f)"
    and st: "state (ps ! j) = ''output-available''"
    and out: "p_output (ps ! j) = JStr (YES ap)"
  shows "\<exists>ms' es cs r ps'.
           processToolCalls ap conv ex ms = Some (ms', es, cs) \<and>
           f (p_input (ps ! j)) (mm, toolCallId (ps ! j)) = Some r \<and>
           parts (ms' ! i) = Some ps' \<and> ps' ! j = (ps ! j)\<lparr>p_output := r\<rparr> \<and>
           eventsOf (processPart ap conv ex ms) (ps ! j) =
             {#ToolOutputAvailable (toolCallId (ps ! j)) r#} \<and>
           callsOf (processPart ap conv ex ms) (ps ! j) =
             {#(toolNameOf (ps ! j), p_input (ps ! j), mm, toolCallId (ps ! j))#} \<and>
           es = sum_list (map (eventsOf (processPart ap conv ex ms)) (allParts ms)) \<and>
           cs = sum_list (map (callsOf (processPart ap conv ex ms)) (allParts ms)) \<and>
           (distinct (map toolCallId (filter isStaticToolUIPart (allParts ms))) \<longrightarrow>
              {#ev \<in># es. eventId ev = toolCallId (ps ! j)#} =
                {#ToolOutputAvailable (toolCallId (ps ! j)) r#} \<and>
              {#cl \<in># cs. callId cl = toolCallId (ps ! j)#} =
                {#(toolNameOf (ps ! j), p_input (ps ! j), mm, toolCallId (ps ! j))#})"
proof -
  have "\<exists>ms' es cs. processToolCalls ap conv ex ms = Some (ms', es, cs)"
    using conv resolves callable by (rule processToolCalls_returns)
  then obtain ms' es cs where run: "processToolCalls ap conv ex ms = Some (ms', es, cs)"
    by blast
  from approved_part_run[OF run pos tool st out] obtain mm' r ps' where
    c: "conv ms = Some mm'" and
    rest: "f (p_input (ps ! j)) (mm', toolCallId (ps ! j)) = Some r \<and>
           parts (ms' ! i) = Some ps' \<and> ps' ! j = (ps ! j)\<lparr>p_output := r\<rparr> \<and>
           eventsOf (processPart ap conv ex ms) (ps ! j) =
             {#ToolOutputAvailable (toolCallId (ps ! j)) r#} \<and>
           callsOf (processPart ap conv ex ms) (ps ! j) =
             {#(toolNameOf (ps ! j), p_input (ps ! j), mm', toolCallId (ps ! j))#} \<and>
           es = sum_list (map (eventsOf (processPart ap conv ex ms)) (allParts ms)) \<and>
           cs = sum_list (map (callsOf (processPart ap conv ex ms)) (allParts ms)) \<and>
           (distinct (map toolCallId (filter isStaticToolUIPart (allParts ms))) \<longrightarrow>
              {#ev \<in># es. eventId ev = toolCallId (ps ! j)#} =
                {#ToolOutputAvailable (toolCallId (ps ! j)) r#} \<and>
              {#cl \<in># cs. callId cl = toolCallId (ps ! j)#} =
                {#(toolNameOf (ps ! j), p_input (ps ! j), mm', toolCallId (ps ! j))#})"
    by blast
  from c conv have "mm' = mm" by simp
  with run rest show ?thesis by blast
qed

theorem approved_part_executed_once_witness:
  "processToolCalls approvalTokens Some weatherRegistry
     [userMessage, weatherMessage (JStr ''Yes, confirmed.'')] =
     Some ([userMessage, weatherMessage (JStr ''22C, sunny'')],
           {#ToolOutputAvailable ''call-1'' (JStr ''22C, sunny'')#},
           {#(''getWeather'', JObj [(''city'', JStr ''Paris'')],
              [userMessage, weatherMessage (JStr ''Yes, confirmed.'')], ''call-1'')#}) \<and>
   (\<exists>ms' es cs r ps'.
           processToolCalls approvalTokens Some weatherRegistry [userMessage, weatherMessage (JStr ''Yes, confirmed.'')] = Some (ms', es, cs) \<and>
           getWeather (p_input ([weatherPart (JStr ''Yes, confirmed.'')] ! 0)) ([userMessage, weatherMessage (JStr ''Yes, confirmed.'')], toolCallId ([weatherPart (JStr ''Yes, confirmed.'')] ! 0)) = Some r \<and>
           parts (ms' ! 1) = Some ps' \<and> ps' ! 0 = ([weatherPart (JStr ''Yes, confirmed.'')] ! 0)\<lparr>p_output := r\<rparr> \<and>
           eventsOf (processPart approvalTokens Some weatherRegistry [userMessage, weatherMessage (JStr ''Yes, confirmed.'')]) ([weatherPart (JStr ''Yes, confirmed.'')] ! 0) =
             {#ToolOutputAvailable (toolCallId ([weatherPart (JStr ''Yes, confirmed.'')] ! 0)) r#} \<and>
           callsOf (processPart approvalTokens Some weatherRegistry [userMessage, weatherMessage (JStr ''Yes, confirmed.'')]) ([weatherPart (JStr ''Yes, confirmed.'')] ! 0) =
             {#(toolNameOf ([weatherPart (JStr ''Yes, confirmed.'')] ! 0), p_input ([weatherPart (JStr ''Yes, confirmed.'')] ! 0), [userMessage, weatherMessage (JStr ''Yes, confirmed.'')], toolCallId ([weatherPart (JStr ''Yes, confirmed.'')] ! 0))#} \<and>
           es = sum_list (map (eventsOf (processPart approvalTokens Some weatherRegistry [userMessage, weatherMessage (JStr ''Yes, confirmed.'')])) (allParts [userMessage, weatherMessage (JStr ''Yes, confirmed.'')])) \<and>
           cs = sum_list (map (callsOf (processPart approvalTokens Some weatherRegistry [userMessage, weatherMessage (JStr ''Yes, confirmed.'')])) (allParts [userMessage, weatherMessage (JStr ''Yes, confirmed.'')])) \<and>
           (distinct (map toolCallId (filter isStaticToolUIPart (allParts [userMessage, weatherMessage (JStr ''Yes, confirmed.'')]))) \<longrightarrow>
              {#ev \<in># es. eventId ev = toolCallId ([weatherPart (JStr ''Yes, confirmed.'')] ! 0)#} =
                {#ToolOutputAvailable (toolCallId ([weatherPart (JStr ''Yes, confirmed.'')] ! 0)) r#} \<and>
              {#cl \<in># cs. callId cl = toolCallId ([weatherPart (JStr ''Yes, confirmed.'')] ! 0)#} =
                {#(toolNameOf ([weatherPart (JStr ''Yes, confirmed.'')] ! 0), p_input ([weatherPart (JStr ''Yes, confirmed.'')] ! 0), [userMessage, weatherMessage (JStr ''Yes, confirmed.'')], toolCallId ([weatherPart (JStr ''Yes, confirmed.'')] ! 0))#}))"
proof (rule conjI)
  let ?ms = "[userMessage, weatherMessage (JStr ''Yes, confirmed.'')]"
  let ?p = "[weatherPart (JStr ''Yes, confirmed.'')] ! 0"
  show "processToolCalls approvalTokens Some weatherRegistry ?ms =
     Some ([userMessage, weatherMessage (JStr ''22C, sunny'')],
           {#ToolOutputAvailable ''call-1'' (JStr ''22C, sunny'')#},
           {#(''getWeather'', JObj [(''city'', JStr ''Paris'')], ?ms, ''call-1'')#})"
    by (simp add: run_simps example_simps)
  have conv: "Some ?ms = Some ?ms" by simp
  have all: "set (allParts ?ms) = {textPart, weatherPart (JStr ''Yes, confirmed.'')}"
    by (auto simp: allParts_def partsOf_def userMessage_def weatherMessage_def
          assistantMessage_def)
  have resolves: "g (p_input q) (?ms, toolCallId q) \<noteq> None"
    if "q \<in> set (allParts ?ms)" "isStaticToolUIPart q" "state q = ''output-available''"
      "p_output q = JStr (YES approvalTokens)" "weatherRegistry (toolNameOf q) = Some (Fn g)"
    for q g
  proof -
    from that(1,2) all have "q = weatherPart (JStr ''Yes, confirmed.'')"
      by (auto simp: isStaticToolUIPart_def textPart_def)
    with that(5) weather_tool(2)[of "JStr ''Yes, confirmed.''"] have "g = getWeather" by simp
    then show ?thesis by (simp add: getWeather_def)
  qed
  have callable: "weatherRegistry (toolNameOf q) \<noteq> Some TruthyNonFunction"
    if "q \<in> set (allParts ?ms)" "isStaticToolUIPart q" "state q = ''output-available''"
      "p_output q = JStr (YES approvalTokens)"
    for q
  proof -
    from that(1,2) all have "q = weatherPart (JStr ''Yes, confirmed.'')"
      by (auto simp: isStaticToolUIPart_def textPart_def)
    with weather_tool(2)[of "JStr ''Yes, confirmed.''"] show ?thesis by simp
  qed
  have pos: "1 < length ?ms" "parts (?ms ! 1) = Some [weatherPart (JStr ''Yes, confirmed.'')]"
    "0 < length [weatherPart (JStr ''Yes, confirmed.'')]"
    by (simp_all add: weatherMessage_def assistantMessage_def)
  have tool: "isStaticToolUIPart ?p"
    "weatherRegistry (toolNameOf ?p) = Some (Fn getWeather)"
    "state ?p = ''output-available''"
    by (rule weather_tool)+
  have out: "p_output ?p = JStr (YES approvalTokens)"
    by (simp add: example_simps)
  show "\<exists>ms' es cs r ps'.
           processToolCalls approvalTokens Some weatherRegistry ?ms = Some (ms', es, cs) \<and>
           getWeather (p_input (?p)) (?ms, toolCallId (?p)) = Some r \<and>
           parts (ms' ! 1) = Some ps' \<and> ps' ! 0 = (?p)\<lparr>p_output := r\<rparr> \<and>
           eventsOf (processPart approvalTokens Some weatherRegistry ?ms) (?p) =
             {#ToolOutputAvailable (toolCallId (?p)) r#} \<and>
           callsOf (processPart approvalTokens Some weatherRegistry ?ms) (?p) =
             {#(toolNameOf (?p), p_input (?p), ?ms, toolCallId (?p))#} \<and>
           es = sum_list (map (eventsOf (processPart approvalTokens Some weatherRegistry ?ms)) (allParts ?ms)) \<and>
           cs = sum_list (map (callsOf (processPart approvalTokens Some weatherRegistry ?ms)) (allParts ?ms)) \<and>
           (distinct (map toolCallId (filter isStaticToolUIPart (allParts ?ms))) \<longrightarrow>
              {#ev \<in># es. eventId ev = toolCallId (?p)#} =
                {#ToolOutputAvailable (toolCallId (?p)) r#} \<and>
              {#cl \<in># cs. callId cl = toolCallId (?p)#} =
                {#(toolNameOf (?p), p_input (?p), ?ms, toolCallId (?p))#})"
    using conv resolves callable pos tool out by (rule approved_part_executed_once)
qed

text \<open>
  Claim C2, as amended. Take a run of the resolver that returns, and a static tool part
  whose tool name is in the registry, whose state is \<open>output-available\<close> and whose output
  is the DENIED token (a token other than the APPROVED one). Then the part at the same position
  of the returned list is the input part with the output
  \<open>Error: User denied access to tool execution\<close>, a fixed non-empty text; the callback of
  the part writes one event, which announces that text under the call id, and calls no
  executor. When the call ids of the tool parts are distinct, no executor call of the whole
  run carries this call id. The text is an ordinary string: an executor may return the same
  one.
\<close>

theorem denied_part_not_executed:
  assumes run: "processToolCalls ap conv ex ms = Some (ms', es, cs)"
    and pos: "i < length ms" "parts (ms ! i) = Some ps" "j < length ps"
    and tool: "isStaticToolUIPart (ps ! j)" "ex (toolNameOf (ps ! j)) \<noteq> None"
    and st: "state (ps ! j) = ''output-available''"
    and out: "p_output (ps ! j) = JStr (NO ap)" and tokens: "NO ap \<noteq> YES ap"
  shows "\<exists>ps'. parts (ms' ! i) = Some ps' \<and>
           ps' ! j = (ps ! j)\<lparr>p_output := JStr ''Error: User denied access to tool execution''\<rparr> \<and>
           eventsOf (processPart ap conv ex ms) (ps ! j) =
             {#ToolOutputAvailable (toolCallId (ps ! j))
                 (JStr ''Error: User denied access to tool execution'')#} \<and>
           callsOf (processPart ap conv ex ms) (ps ! j) = {#} \<and>
           es = sum_list (map (eventsOf (processPart ap conv ex ms)) (allParts ms)) \<and>
           cs = sum_list (map (callsOf (processPart ap conv ex ms)) (allParts ms)) \<and>
           (distinct (map toolCallId (filter isStaticToolUIPart (allParts ms))) \<longrightarrow>
              {#ev \<in># es. eventId ev = toolCallId (ps ! j)#} =
                {#ToolOutputAvailable (toolCallId (ps ! j))
                    (JStr ''Error: User denied access to tool execution'')#} \<and>
              {#cl \<in># cs. callId cl = toolCallId (ps ! j)#} = {#})"
proof -
  from processToolCalls_nth[OF run pos] obtain ps' e c where
    ps': "parts (ms' ! i) = Some ps'"
    and pp: "processPart ap conv ex ms (ps ! j) = Some (ps' ! j, e, c)" by blast
  from tool st out tokens
  have d: "processPart ap conv ex ms (ps ! j) =
           Some ((ps ! j)\<lparr>p_output := JStr ''Error: User denied access to tool execution''\<rparr>,
                 {#ToolOutputAvailable (toolCallId (ps ! j))
                     (JStr ''Error: User denied access to tool execution'')#},
                 {#})"
    by (rule processPart_denied)
  from pp d have new: "ps' ! j = (ps ! j)\<lparr>p_output := JStr ''Error: User denied access to tool execution''\<rparr>"
    and e: "e = {#ToolOutputAvailable (toolCallId (ps ! j))
                    (JStr ''Error: User denied access to tool execution'')#}"
    and c: "c = {#}" by simp_all
  have own: "eventsOf (processPart ap conv ex ms) (ps ! j) = e"
      "callsOf (processPart ap conv ex ms) (ps ! j) = c"
    by (simp_all add: eventsOf_def callsOf_def pp)
  have unique: "{#ev \<in># es. eventId ev = toolCallId (ps ! j)#} = e \<and>
                {#cl \<in># cs. callId cl = toolCallId (ps ! j)#} = c"
    if "distinct (map toolCallId (filter isStaticToolUIPart (allParts ms)))"
    by (rule filtered_events_of_part[OF run that nth_allParts[OF pos] tool(1) pp])
  from new ps' own unique processToolCalls_sum[OF run] show ?thesis
    unfolding e c by blast
qed

theorem denied_part_not_executed_witness:
  "processToolCalls approvalTokens Some weatherRegistry [weatherMessage (JStr ''No, denied.'')] =
     Some ([weatherMessage (JStr ''Error: User denied access to tool execution'')],
           {#ToolOutputAvailable ''call-1'' (JStr ''Error: User denied access to tool execution'')#},
           {#}) \<and>
   (\<exists>ps'. parts ([weatherMessage (JStr ''Error: User denied access to tool execution'')] ! 0) = Some ps' \<and>
      ps' ! 0 = ([weatherPart (JStr ''No, denied.'')] ! 0)
                 \<lparr>p_output := JStr ''Error: User denied access to tool execution''\<rparr>)"
proof -
  let ?ms = "[weatherMessage (JStr ''No, denied.'')]"
  have run: "processToolCalls approvalTokens Some weatherRegistry ?ms =
     Some ([weatherMessage (JStr ''Error: User denied access to tool execution'')],
           {#ToolOutputAvailable ''call-1'' (JStr ''Error: User denied access to tool execution'')#},
           {#})"
    by (simp add: run_simps example_simps)
  have reg: "weatherRegistry (toolNameOf ([weatherPart (JStr ''No, denied.'')] ! 0)) \<noteq> None"
    using weather_tool(2)[of "JStr ''No, denied.''"] by simp
  have out: "p_output ([weatherPart (JStr ''No, denied.'')] ! 0) = JStr (NO approvalTokens)"
    and tokens: "NO approvalTokens \<noteq> YES approvalTokens"
    by (simp_all add: example_simps)
  from denied_part_not_executed[OF run weather_pos weather_tool(1) reg weather_tool(3) out tokens] run
  show ?thesis by blast
qed

text \<open>
  The claim as stated fails where it calls the denial text distinct from any real tool
  result: with an executor that returns that very text, an approved part (one executor
  call) and a denied part (no call) end with the same output.
\<close>

theorem denial_text_not_distinct_counterexample:
  "processPart approvalTokens Some refusingRegistry [] (weatherPart (JStr ''Yes, confirmed.'')) =
     Some (weatherPart (JStr ''Error: User denied access to tool execution''),
           {#ToolOutputAvailable ''call-1'' (JStr ''Error: User denied access to tool execution'')#},
           {#(''getWeather'', JObj [(''city'', JStr ''Paris'')], [], ''call-1'')#}) \<and>
   processPart approvalTokens Some refusingRegistry [] (weatherPart (JStr ''No, denied.'')) =
     Some (weatherPart (JStr ''Error: User denied access to tool execution''),
           {#ToolOutputAvailable ''call-1'' (JStr ''Error: User denied access to tool execution'')#},
           {#})"
  by (simp add: run_simps example_simps)

text \<open>
  A part outside the guards of the resolver. Take a run of the resolver that returns, and a
  part that is not a static tool part, or for whose tool name the test
  \<open>toolName in executions\<close> is false, or whose state is not \<open>output-available\<close>, or
  whose output is neither the APPROVED nor the DENIED token. Then the part at the same position
  of the returned list is the input part itself, and the callback of the part writes no event
  and calls no executor. When the part is a static tool part and the call ids of the tool
  parts are distinct, no event and no executor call of the whole run carries its call id. So
  a part that holds a genuine output is not executed again.
\<close>

theorem part_outside_guards_untouched:
  assumes run: "processToolCalls ap conv ex ms = Some (ms', es, cs)"
    and pos: "i < length ms" "parts (ms ! i) = Some ps" "j < length ps"
    and skip: "\<not> isStaticToolUIPart (ps ! j) \<or> ex (toolNameOf (ps ! j)) = None \<or>
               state (ps ! j) \<noteq> ''output-available'' \<or>
               (p_output (ps ! j) \<noteq> JStr (YES ap) \<and> p_output (ps ! j) \<noteq> JStr (NO ap))"
  shows "\<exists>ps'. parts (ms' ! i) = Some ps' \<and> ps' ! j = ps ! j \<and>
           eventsOf (processPart ap conv ex ms) (ps ! j) = {#} \<and>
           callsOf (processPart ap conv ex ms) (ps ! j) = {#} \<and>
           es = sum_list (map (eventsOf (processPart ap conv ex ms)) (allParts ms)) \<and>
           cs = sum_list (map (callsOf (processPart ap conv ex ms)) (allParts ms)) \<and>
           (isStaticToolUIPart (ps ! j) \<and>
            distinct (map toolCallId (filter isStaticToolUIPart (allParts ms))) \<longrightarrow>
              {#ev \<in># es. eventId ev = toolCallId (ps ! j)#} = {#} \<and>
              {#cl \<in># cs. callId cl = toolCallId (ps ! j)#} = {#})"
proof -
  from processToolCalls_nth[OF run pos] obtain ps' e c where
    ps': "parts (ms' ! i) = Some ps'"
    and pp: "processPart ap conv ex ms (ps ! j) = Some (ps' ! j, e, c)" by blast
  from skip have u: "processPart ap conv ex ms (ps ! j) = unchanged (ps ! j)"
    by (rule processPart_unchanged_cases)
  from pp u have same: "ps' ! j = ps ! j" and e: "e = {#}" and c: "c = {#}"
    by (simp_all add: unchanged_def)
  have own: "eventsOf (processPart ap conv ex ms) (ps ! j) = e"
      "callsOf (processPart ap conv ex ms) (ps ! j) = c"
    by (simp_all add: eventsOf_def callsOf_def pp)
  have unique: "{#ev \<in># es. eventId ev = toolCallId (ps ! j)#} = e \<and>
                {#cl \<in># cs. callId cl = toolCallId (ps ! j)#} = c"
    if "isStaticToolUIPart (ps ! j)"
      and "distinct (map toolCallId (filter isStaticToolUIPart (allParts ms)))"
    by (rule filtered_events_of_part[OF run that(2) nth_allParts[OF pos] that(1) pp])
  from same ps' own unique processToolCalls_sum[OF run] show ?thesis
    unfolding e c by blast
qed

theorem part_outside_guards_untouched_witness:
  "processToolCalls approvalTokens Some weatherRegistry [weatherMessage (JStr ''22C, sunny'')] =
     Some ([weatherMessage (JStr ''22C, sunny'')], {#}, {#}) \<and>
   (\<exists>ps'. parts ([weatherMessage (JStr ''22C, sunny'')] ! 0) = Some ps' \<and>
      ps' ! 0 = [weatherPart (JStr ''22C, sunny'')] ! 0)"
proof -
  let ?ms = "[weatherMessage (JStr ''22C, sunny'')]"
  let ?p = "[weatherPart (JStr ''22C, sunny'')] ! 0"
  have run: "processToolCalls approvalTokens Some weatherRegistry ?ms = Some (?ms, {#}, {#})"
    by (simp add: run_simps example_simps)
  have skip: "\<not> isStaticToolUIPart ?p \<or> weatherRegistry (toolNameOf ?p) = None \<or>
      state ?p \<noteq> ''output-available'' \<or>
      (p_output ?p \<noteq> JStr (YES approvalTokens) \<and> p_output ?p \<noteq> JStr (NO approvalTokens))"
    by (simp add: example_simps)
  from part_outside_guards_untouched[OF run weather_pos skip] run
  show ?thesis by blast
qed

text \<open>
  Claim C3. A tool name that is absent from the registry is still found by
  \<open>toolName in executions\<close> when \<open>Object.prototype\<close> defines it: with the registry
  \<open>{getWeather: ...}\<close>, which has no entry \<open>toString\<close>, the part of type
  \<open>tool-toString\<close> in state \<open>output-available\<close> whose output is the DENIED token gets a
  new output and an event is written, whatever the projection and the inherited properties
  are.
\<close>

theorem unregistered_inherited_name_resolved:
  "map_of [(''getWeather'', getWeather)]
     (toolNameOf (toolPart ''tool-toString'' ''output-available'' (JStr ''No, denied.''))) = None \<and>
   processToolCalls approvalTokens conv (object_literal inherited [(''getWeather'', getWeather)])
     [assistantMessage [toolPart ''tool-toString'' ''output-available'' (JStr ''No, denied.'')]] =
   Some ([assistantMessage [toolPart ''tool-toString'' ''output-available''
            (JStr ''Error: User denied access to tool execution'')]],
         {#ToolOutputAvailable ''call-1'' (JStr ''Error: User denied access to tool execution'')#},
         {#})"
  by (simp add: run_simps example_simps)

theorem unregistered_inherited_name_resolved_witness:
  "map_of [(''getWeather'', getWeather)]
     (toolNameOf (toolPart ''tool-toString'' ''output-available'' (JStr ''No, denied.''))) = None \<and>
   processToolCalls approvalTokens Some (object_literal (\<lambda>k. Falsy) [(''getWeather'', getWeather)])
     [assistantMessage [toolPart ''tool-toString'' ''output-available'' (JStr ''No, denied.'')]] =
   Some ([assistantMessage [toolPart ''tool-toString'' ''output-available''
            (JStr ''Error: User denied access to tool execution'')]],
         {#ToolOutputAvailable ''call-1'' (JStr ''Error: User denied access to tool execution'')#},
         {#})"
  by (rule unregistered_inherited_name_resolved[of Some "\<lambda>k. Falsy"])

text \<open>
  Claim C6. Whenever the resolver returns a list, it has as many messages as the input;
  the message at each position keeps its id, role and metadata, and differs from the input
  message at most in its parts; a message without parts stays without parts; otherwise the
  parts are as many as before, the part at each position differs from the input part at most
  in its output field, and it differs at all only when the input part is a static tool part
  with a tool name in the registry, in state \<open>output-available\<close>, whose output is the
  APPROVED or the DENIED token.
\<close>

theorem resolver_preserves_structure:
  assumes run: "processToolCalls ap conv ex ms = Some (ms', es, cs)"
  shows "length ms' = length ms \<and>
         (\<forall>i<length ms.
            mid (ms' ! i) = mid (ms ! i) \<and> role (ms' ! i) = role (ms ! i) \<and>
            metadata (ms' ! i) = metadata (ms ! i) \<and>
            ms' ! i = (ms ! i)\<lparr>parts := parts (ms' ! i)\<rparr> \<and>
            (case parts (ms ! i) of
               None \<Rightarrow> parts (ms' ! i) = None
             | Some ps \<Rightarrow>
                 (\<exists>ps'. parts (ms' ! i) = Some ps' \<and> length ps' = length ps \<and>
                    (\<forall>j<length ps.
                       ps' ! j = (ps ! j)\<lparr>p_output := p_output (ps' ! j)\<rparr> \<and>
                       (ps' ! j \<noteq> ps ! j \<longrightarrow>
                          isStaticToolUIPart (ps ! j) \<and> ex (toolNameOf (ps ! j)) \<noteq> None \<and>
                          state (ps ! j) = ''output-available'' \<and>
                          (p_output (ps ! j) = JStr (YES ap) \<or>
                           p_output (ps ! j) = JStr (NO ap)))))))"
proof (intro conjI allI impI)
  from run show "length ms' = length ms"
    unfolding processToolCalls_def by (rule promise_all_length)
next
  fix i assume i: "i < length ms"
  from promise_all_nth[OF run[unfolded processToolCalls_def] i]
  obtain e c where m: "processMessage ap conv ex ms (ms ! i) = Some (ms' ! i, e, c)" by blast
  have eq: "ms' ! i = (ms ! i)\<lparr>parts := parts (ms' ! i)\<rparr>"
  proof (cases "parts (ms ! i)")
    case None
    with m have "ms' ! i = ms ! i" by (simp add: processMessage_def unchanged_def)
    then show ?thesis by simp
  next
    case (Some ps)
    from processMessage_Some[OF m Some]
    obtain ps' where "ms' ! i = (ms ! i)\<lparr>parts := Some ps'\<rparr>" by blast
    then show ?thesis by simp
  qed
  show "ms' ! i = (ms ! i)\<lparr>parts := parts (ms' ! i)\<rparr>" by (rule eq)
  show "mid (ms' ! i) = mid (ms ! i)" by (subst eq) simp
  show "role (ms' ! i) = role (ms ! i)" by (subst eq) simp
  show "metadata (ms' ! i) = metadata (ms ! i)" by (subst eq) simp
  show "case parts (ms ! i) of
               None \<Rightarrow> parts (ms' ! i) = None
             | Some ps \<Rightarrow>
                 (\<exists>ps'. parts (ms' ! i) = Some ps' \<and> length ps' = length ps \<and>
                    (\<forall>j<length ps.
                       ps' ! j = (ps ! j)\<lparr>p_output := p_output (ps' ! j)\<rparr> \<and>
                       (ps' ! j \<noteq> ps ! j \<longrightarrow>
                          isStaticToolUIPart (ps ! j) \<and> ex (toolNameOf (ps ! j)) \<noteq> None \<and>
                          state (ps ! j) = ''output-available'' \<and>
                          (p_output (ps ! j) = JStr (YES ap) \<or>
                           p_output (ps ! j) = JStr (NO ap)))))"
  proof (cases "parts (ms ! i)")
    case None
    with m show ?thesis by (simp add: processMessage_def unchanged_def)
  next
    case (Some ps)
    have "\<exists>ps'. parts (ms' ! i) = Some ps' \<and> length ps' = length ps \<and>
                    (\<forall>j<length ps.
                       ps' ! j = (ps ! j)\<lparr>p_output := p_output (ps' ! j)\<rparr> \<and>
                       (ps' ! j \<noteq> ps ! j \<longrightarrow>
                          isStaticToolUIPart (ps ! j) \<and> ex (toolNameOf (ps ! j)) \<noteq> None \<and>
                          state (ps ! j) = ''output-available'' \<and>
                          (p_output (ps ! j) = JStr (YES ap) \<or>
                           p_output (ps ! j) = JStr (NO ap))))"
    proof -
      from processMessage_Some[OF m Some] obtain ps' where
        pa: "promise_all (processPart ap conv ex ms) ps = Some (ps', e, c)"
        and m': "parts (ms' ! i) = Some ps'" by blast
      have "ps' ! j = (ps ! j)\<lparr>p_output := p_output (ps' ! j)\<rparr> \<and>
            (ps' ! j \<noteq> ps ! j \<longrightarrow>
               isStaticToolUIPart (ps ! j) \<and> ex (toolNameOf (ps ! j)) \<noteq> None \<and>
               state (ps ! j) = ''output-available'' \<and>
               (p_output (ps ! j) = JStr (YES ap) \<or> p_output (ps ! j) = JStr (NO ap)))"
        if j: "j < length ps" for j
      proof -
        from promise_all_nth[OF pa j] obtain e' c' where
          pp: "processPart ap conv ex ms (ps ! j) = Some (ps' ! j, e', c')" by blast
        have frame: "ps' ! j = (ps ! j)\<lparr>p_output := p_output (ps' ! j)\<rparr>"
          using pp by (rule processPart_frame)
        have guard: "isStaticToolUIPart (ps ! j) \<and> ex (toolNameOf (ps ! j)) \<noteq> None \<and>
               state (ps ! j) = ''output-available'' \<and>
               (p_output (ps ! j) = JStr (YES ap) \<or> p_output (ps ! j) = JStr (NO ap))"
          if changed: "ps' ! j \<noteq> ps ! j"
        proof (rule ccontr)
          assume "\<not> ?thesis"
          then have "\<not> isStaticToolUIPart (ps ! j) \<or> ex (toolNameOf (ps ! j)) = None \<or>
              state (ps ! j) \<noteq> ''output-available'' \<or>
              (p_output (ps ! j) \<noteq> JStr (YES ap) \<and> p_output (ps ! j) \<noteq> JStr (NO ap))"
            by blast
          then have "processPart ap conv ex ms (ps ! j) = unchanged (ps ! j)"
            by (rule processPart_unchanged_cases)
          with pp changed show False by (simp add: unchanged_def)
        qed
        from frame guard show ?thesis by blast
      qed
      with m' promise_all_length[OF pa] show ?thesis by blast
    qed
    with Some show ?thesis by simp
  qed
qed

theorem resolver_preserves_structure_witness:
  "processToolCalls approvalTokens Some weatherRegistry
     [userMessage, weatherMessage (JStr ''Yes, confirmed.'')] =
     Some ([userMessage, weatherMessage (JStr ''22C, sunny'')],
           {#ToolOutputAvailable ''call-1'' (JStr ''22C, sunny'')#},
           {#(''getWeather'', JObj [(''city'', JStr ''Paris'')],
              [userMessage, weatherMessage (JStr ''Yes, confirmed.'')], ''call-1'')#}) \<and>
   length [userMessage, weatherMessage (JStr ''22C, sunny'')] =
     length [userMessage, weatherMessage (JStr ''Yes, confirmed.'')] \<and>
   mid ([userMessage, weatherMessage (JStr ''22C, sunny'')] ! 1) =
     mid ([userMessage, weatherMessage (JStr ''Yes, confirmed.'')] ! 1) \<and>
   role ([userMessage, weatherMessage (JStr ''22C, sunny'')] ! 1) =
     role ([userMessage, weatherMessage (JStr ''Yes, confirmed.'')] ! 1)"
proof -
  let ?ms = "[userMessage, weatherMessage (JStr ''Yes, confirmed.'')]"
  have run: "processToolCalls approvalTokens Some weatherRegistry ?ms =
     Some ([userMessage, weatherMessage (JStr ''22C, sunny'')],
           {#ToolOutputAvailable ''call-1'' (JStr ''22C, sunny'')#},
           {#(''getWeather'', JObj [(''city'', JStr ''Paris'')], ?ms, ''call-1'')#})"
    by (simp add: run_simps example_simps)
  have "1 < length ?ms" by simp
  with resolver_preserves_structure[OF run] run show ?thesis by blast
qed

lemma processToolCalls_no_properties:
  "processToolCalls ap conv Map.empty ms = Some (ms, {#}, {#})"
proof -
  have p: "processPart ap conv Map.empty ms p = unchanged p" for p :: part
    by (rule processPart_unchanged_cases) simp
  have m: "processMessage ap conv Map.empty ms m = unchanged m" for m
    by (cases "parts m")
       (simp_all add: processMessage_def promise_all_unchanged[of _ "processPart ap conv Map.empty ms"]
          p unchanged_def)
  show ?thesis
    unfolding processToolCalls_def
    using promise_all_unchanged[of ms "processMessage ap conv Map.empty ms"] m
    by (simp add: unchanged_def)
qed

text \<open>
  With the registry \<open>{}\<close>, a message list in which no static tool part is named after a
  property of \<open>Object.prototype\<close> comes back as it was: no event is written and no
  executor is called.
\<close>

theorem empty_literal_registry_ordinary_names:
  assumes "\<And>p. p \<in> set (allParts ms) \<Longrightarrow> isStaticToolUIPart p \<Longrightarrow>
             toolNameOf p \<notin> set object_prototype_keys"
  shows "processToolCalls ap conv (object_literal inherited []) ms = Some (ms, {#}, {#})"
proof -
  let ?ex = "object_literal inherited []"
  have p: "processPart ap conv ?ex ms p = unchanged p" if "p \<in> set (allParts ms)" for p
  proof (cases "isStaticToolUIPart p")
    case True
    with assms that have "?ex (toolNameOf p) = None" by (simp add: object_literal_def)
    then show ?thesis by (intro processPart_unchanged_cases) simp
  next
    case False
    then show ?thesis by (intro processPart_unchanged_cases) simp
  qed
  have m: "processMessage ap conv ?ex ms m = unchanged m" if "m \<in> set ms" for m
  proof (cases "parts m")
    case None
    then show ?thesis by (simp add: processMessage_def)
  next
    case (Some ps)
    with that have "set ps \<subseteq> set (allParts ms)"
      by (auto simp: allParts_def partsOf_def intro!: bexI[of _ m])
    with p have "promise_all (processPart ap conv ?ex ms) ps = unchanged ps"
      by (intro promise_all_unchanged) blast
    with Some show ?thesis by (simp add: processMessage_def unchanged_def)
  qed
  show ?thesis
    unfolding processToolCalls_def
    using promise_all_unchanged[of ms "processMessage ap conv ?ex ms"] m
    by (simp add: unchanged_def)
qed

theorem empty_literal_registry_ordinary_names_witness:
  "processToolCalls approvalTokens Some (object_literal (\<lambda>k. Falsy) [])
     [weatherMessage (JStr ''No, denied.'')] =
   Some ([weatherMessage (JStr ''No, denied.'')], {#}, {#})"
proof (rule empty_literal_registry_ordinary_names)
  fix p
  assume "p \<in> set (allParts [weatherMessage (JStr ''No, denied.'')])"
  then have "p = weatherPart (JStr ''No, denied.'')"
    by (simp add: allParts_def partsOf_def weatherMessage_def assistantMessage_def)
  then show "toolNameOf p \<notin> set object_prototype_keys"
    by (simp add: toolNameOf_def weatherPart_def toolPart_def object_prototype_keys_def)
qed

text \<open>
  The resolver returns a list whenever the projection of the messages succeeds, every
  executor of the registry resolves, and no slot of the registry holds a truthy value that
  is not a function.
\<close>

theorem resolver_returns:
  assumes "conv ms \<noteq> None" and "\<And>k f a c. ex k = Some (Fn f) \<Longrightarrow> f a c \<noteq> None"
    and "\<And>k. ex k \<noteq> Some TruthyNonFunction"
  shows "\<exists>ms' es cs. processToolCalls ap conv ex ms = Some (ms', es, cs)"
proof -
  from assms(1) obtain mm where "conv ms = Some mm" by blast
  then show ?thesis
    by (rule processToolCalls_returns) (use assms(2,3) in blast)+
qed

theorem resolver_returns_witness:
  "\<exists>ms' es cs. processToolCalls approvalTokens Some [''getWeather'' \<mapsto> Fn getWeather]
      [weatherMessage (JStr ''Yes, confirmed.'')] = Some (ms', es, cs)"
proof (rule resolver_returns)
  show "Some [weatherMessage (JStr ''Yes, confirmed.'')] \<noteq> None" by simp
next
  fix k f a c
  assume "[''getWeather'' \<mapsto> Fn getWeather] k = Some (Fn f)"
  then have "f = getWeather" by (auto split: if_splits)
  then show "f a c \<noteq> None" by (simp add: getWeather_def)
next
  fix k
  show "[''getWeather'' \<mapsto> Fn getWeather] k \<noteq> Some TruthyNonFunction"
    by (auto split: if_splits)
qed


text \<open>
  Claim C10. With the registry \<open>{}\<close> that \<open>FlightAgent.onChatMessage\<close> passes, a tool
  part named after a property of \<open>Object.prototype\<close> passes the test
  \<open>toolName in executions\<close>: for the part of type \<open>tool-toString\<close> in state
  \<open>output-available\<close> whose output is the DENIED token, the resolver replaces the output and
  writes an event, whatever the projection and the inherited properties are.
\<close>

theorem empty_literal_registry_resolves_inherited_name:
  "processToolCalls approvalTokens conv (object_literal inherited [])
     [assistantMessage [toolPart ''tool-toString'' ''output-available'' (JStr ''No, denied.'')]] =
   Some ([assistantMessage [toolPart ''tool-toString'' ''output-available''
            (JStr ''Error: User denied access to tool execution'')]],
         {#ToolOutputAvailable ''call-1'' (JStr ''Error: User denied access to tool execution'')#},
         {#})"
  by (simp add: run_simps example_simps)

theorem empty_literal_registry_resolves_inherited_name_witness:
  "processToolCalls approvalTokens Some (object_literal (\<lambda>k. Falsy) [])
     [assistantMessage [toolPart ''tool-toString'' ''output-available'' (JStr ''No, denied.'')]] =
   Some ([assistantMessage [toolPart ''tool-toString'' ''output-available''
            (JStr ''Error: User denied access to tool execution'')]],
         {#ToolOutputAvailable ''call-1'' (JStr ''Error: User denied access to tool execution'')#},
         {#}) \<and>
   toolNameOf (toolPart ''tool-toString'' ''output-available'' (JStr ''No, denied.''))
     \<in> set object_prototype_keys"
  using empty_literal_registry_resolves_inherited_name[of Some "\<lambda>k. Falsy"]
  by (simp add: toolNameOf_def toolPart_def object_prototype_keys_def)

section \<open>Properties of the sanitizer\<close>

lemma hasIncompleteToolCall_iff:
  "hasIncompleteToolCall m \<longleftrightarrow>
     (\<exists>p\<in>set (partsOf m). isStaticToolUIPart p \<and>
        (state p = ''input-streaming'' \<or>
         state p = ''input-available'' \<and> \<not> truthy (p_output p) \<and> \<not> truthy (errorText p)))"
  by (cases "parts m")
     (auto simp: hasIncompleteToolCall_def incompleteToolCall_def partsOf_def list_ex_iff)

lemma cleanupMessages_filter:
  "cleanupMessages ms =
     filter (\<lambda>m. \<not> (\<exists>p\<in>set (partsOf m). isStaticToolUIPart p \<and>
        (state p = ''input-streaming'' \<or>
         state p = ''input-available'' \<and> \<not> truthy (p_output p) \<and> \<not> truthy (errorText p)))) ms"
  by (simp add: cleanupMessages_def hasIncompleteToolCall_iff)

text \<open>
  The sanitizer on message lists whose tool parts in state \<open>input-available\<close> carry
  neither an output nor an error text. It keeps, unchanged and in their order, exactly the
  messages that have no static tool part in state \<open>input-streaming\<close> and none in state
  \<open>input-available\<close> with neither an output nor an error text; so a message with a tool
  part in state \<open>input-streaming\<close> is not in the result (scenario C).
\<close>

theorem sanitizer_on_parts_without_results:
  assumes "\<And>m p. m \<in> set ms \<Longrightarrow> p \<in> set (partsOf m) \<Longrightarrow> isStaticToolUIPart p \<Longrightarrow>
             state p = ''input-available'' \<Longrightarrow> p_output p = JUndefined \<and> errorText p = JUndefined"
  shows "cleanupMessages ms =
     filter (\<lambda>m. \<not> (\<exists>p\<in>set (partsOf m). isStaticToolUIPart p \<and>
        (state p = ''input-streaming'' \<or>
         state p = ''input-available'' \<and> p_output p = JUndefined \<and> errorText p = JUndefined))) ms \<and>
   subseq (cleanupMessages ms) ms \<and>
   (\<forall>m\<in>set ms. (\<exists>p\<in>set (partsOf m). isStaticToolUIPart p \<and> state p = ''input-streaming'')
       \<longrightarrow> m \<notin> set (cleanupMessages ms))"
proof (intro conjI)
  show "cleanupMessages ms =
     filter (\<lambda>m. \<not> (\<exists>p\<in>set (partsOf m). isStaticToolUIPart p \<and>
        (state p = ''input-streaming'' \<or>
         state p = ''input-available'' \<and> p_output p = JUndefined \<and> errorText p = JUndefined))) ms"
    unfolding cleanupMessages_filter
  proof (rule filter_cong[OF refl])
    fix m assume m: "m \<in> set ms"
    have "truthy (p_output p) = False \<and> truthy (errorText p) = False \<and>
          p_output p = JUndefined \<and> errorText p = JUndefined"
      if "p \<in> set (partsOf m)" "isStaticToolUIPart p" "state p = ''input-available''" for p
      using assms[OF m that] by simp
    then show "(\<not> (\<exists>p\<in>set (partsOf m). isStaticToolUIPart p \<and>
        (state p = ''input-streaming'' \<or>
         state p = ''input-available'' \<and> \<not> truthy (p_output p) \<and> \<not> truthy (errorText p)))) =
      (\<not> (\<exists>p\<in>set (partsOf m). isStaticToolUIPart p \<and>
        (state p = ''input-streaming'' \<or>
         state p = ''input-available'' \<and> p_output p = JUndefined \<and> errorText p = JUndefined)))"
      by blast
  qed
  show "subseq (cleanupMessages ms) ms"
    by (simp add: cleanupMessages_def)
  show "\<forall>m\<in>set ms. (\<exists>p\<in>set (partsOf m). isStaticToolUIPart p \<and> state p = ''input-streaming'')
       \<longrightarrow> m \<notin> set (cleanupMessages ms)"
    by (auto simp: cleanupMessages_def hasIncompleteToolCall_iff)
qed

theorem sanitizer_on_parts_without_results_witness:
  "cleanupMessages
     [assistantMessage [toolPart ''tool-getWeather'' ''input-streaming'' JUndefined],
      weatherMessage (JStr ''22C, sunny'')] = [weatherMessage (JStr ''22C, sunny'')] \<and>
   subseq (cleanupMessages
     [assistantMessage [toolPart ''tool-getWeather'' ''input-streaming'' JUndefined],
      weatherMessage (JStr ''22C, sunny'')])
     [assistantMessage [toolPart ''tool-getWeather'' ''input-streaming'' JUndefined],
      weatherMessage (JStr ''22C, sunny'')]"
proof -
  let ?ms = "[assistantMessage [toolPart ''tool-getWeather'' ''input-streaming'' JUndefined],
      weatherMessage (JStr ''22C, sunny'')]"
  have typed: "p_output p = JUndefined \<and> errorText p = JUndefined"
    if "m \<in> set ?ms" "p \<in> set (partsOf m)" "isStaticToolUIPart p"
      "state p = ''input-available''" for m p
    using that by (auto simp: partsOf_def example_simps)
  have "cleanupMessages ?ms =
     filter (\<lambda>m. \<not> (\<exists>p\<in>set (partsOf m). isStaticToolUIPart p \<and>
        (state p = ''input-streaming'' \<or>
         state p = ''input-available'' \<and> p_output p = JUndefined \<and> errorText p = JUndefined))) ?ms \<and>
   subseq (cleanupMessages ?ms) ?ms \<and>
   (\<forall>m\<in>set ?ms. (\<exists>p\<in>set (partsOf m). isStaticToolUIPart p \<and> state p = ''input-streaming'')
       \<longrightarrow> m \<notin> set (cleanupMessages ?ms))"
    using typed by (rule sanitizer_on_parts_without_results)
  then show ?thesis
    by (simp add: partsOf_def isStaticToolUIPart_def example_simps)
qed

text \<open>
  Claim C4. The sanitizer tests \<open>!part.output && !part.errorText\<close>: a part in state
  \<open>input-available\<close> whose output is set to \<open>false\<close> is not streaming and has an
  output, yet its message is removed.
\<close>

theorem sanitizer_removes_part_with_falsy_output:
  "state (toolPart ''tool-getWeather'' ''input-available'' (JBool False)) \<noteq> ''input-streaming'' \<and>
   p_output (toolPart ''tool-getWeather'' ''input-available'' (JBool False)) \<noteq> JUndefined \<and>
   cleanupMessages
     [assistantMessage [toolPart ''tool-getWeather'' ''input-available'' (JBool False)]] = []"
  by (simp add: cleanupMessages_def hasIncompleteToolCall_def incompleteToolCall_def
        isStaticToolUIPart_def example_simps)

text \<open>
  Claim C5. Sanitizing twice gives the same list as sanitizing once.
\<close>

theorem sanitizer_idempotent:
  "cleanupMessages (cleanupMessages ms) = cleanupMessages ms"
  by (simp add: cleanupMessages_def)

section \<open>Properties of the flight formatter\<close>

lemma formatTime_0900: "formatTime ''2024-01-01T09:00'' = ''9:00 AM''"
  by code_simp

lemma formatTime_1130: "formatTime ''2024-01-01T11:30'' = ''11:30 AM''"
  by code_simp

lemma formatDuration_2h30: "formatDuration (JStr ''PT2H30M'') = Ret ''2h 30m''"
  by code_simp

lemma afterAt_dep: "afterAt (JStr ''... at 2024-01-01T09:00'') = Ret ''2024-01-01T09:00''"
  by code_simp

lemma afterAt_arr: "afterAt (JStr ''... at 2024-01-01T11:30'') = Ret ''2024-01-01T11:30''"
  by code_simp

lemma showNat_digit: "n < 10 \<Longrightarrow> showNat n = [digitChar n]"
  by (simp add: showNat.simps)

lemma renderPrice_scenario:
  "renderPrice (scenarioOffer cur) = Ret ((if cur = ''EUR'' then euro else ''$'') @ ''100'')"
  by (simp add: renderPrice_def scenarioOffer_def)

lemma scenarioOffer_props:
  "getProp (scenarioOffer cur) ''airlines'' = Ret (JArr [JStr ''AB''])"
  "getProp (scenarioOffer cur) ''itineraries'' = Ret (JArr [scenarioItinerary])"
  "getProp (scenarioOffer cur) ''seatsAvailable'' = Ret (JNum 3)"
  by (simp_all add: scenarioOffer_def)

lemma scenarioItinerary_lines:
  "itineraryLines (scenarioOffer cur) (JStr ''Air Bravo'') p scenarioItinerary ls =
     Ret (ls @ [bullet @ '' Air Bravo AB123 - '' @ p,
        ''  Departs: 9:00 AM '' @ arrow @ '' Arrives: 11:30 AM (2h 30m, nonstop)'',
        ''  Seats available: 3'',
        ''''])"
  by (simp add: itineraryLines_def nonstopLines_def orElse_def formatDuration_2h30
        afterAt_dep afterAt_arr formatTime_0900 formatTime_1130 scenarioOffer_props
        scenarioItinerary_def showNat_digit digitChar_def)

lemma scenarioOffer_lines:
  "offerLines (JObj [(''AB'', JStr ''Air Bravo'')]) (scenarioOffer cur) ls =
     Ret (ls @ [bullet @ '' Air Bravo AB123 - '' @ (if cur = ''EUR'' then euro else ''$'') @ ''100'',
        ''  Departs: 9:00 AM '' @ arrow @ '' Arrives: 11:30 AM (2h 30m, nonstop)'',
        ''  Seats available: 3'',
        ''''])"
  by (simp add: offerLines_def renderPrice_scenario scenarioOffer_props scenarioItinerary_lines
        getComputed_def orElse_def)

lemma scenarioD_run:
  "formatFlightResults stringify (scenarioD cur) =
     Ret (JStr (scenarioText (if cur = ''EUR'' then euro else ''$'')))"
  by (simp add: formatFlightResults_def scenarioD_def scenarioOffer_lines orElse_def
        scenarioText_def showNat_digit digitChar_def)

lemma bindO_Ret_iff: "bindO m f = Ret y \<longleftrightarrow> (\<exists>x. m = Ret x \<and> f x = Ret y)"
  by (cases m) auto

text \<open>
  Claim C7. The formatter throws on an offer without a price: line 170 reads
  \<open>offer.price.currency\<close>, and \<open>offer.price\<close> is \<open>undefined\<close>.
\<close>

theorem offer_without_price_throws:
  "formatFlightResults stringify (JObj [(''offers'', JArr [JObj []])]) = Throw"
  by (simp add: formatFlightResults_def offerLines_def renderPrice_def getComputed_def orElse_def
        showNat_digit digitChar_def object_prototype_keys_def)

theorem offer_without_price_throws_witness:
  "formatFlightResults (\<lambda>v. JUndefined) (JObj [(''offers'', JArr [JObj []])]) = Throw \<and>
   getProp (JObj []) ''price'' = Ret JUndefined \<and> getProp JUndefined ''currency'' = Throw"
  using offer_without_price_throws[of "\<lambda>v. JUndefined"] by simp

text \<open>
  Claim C8, as amended. For the input of scenario D the formatter returns a text that
  includes \<open>Found 1 flights:\<close>, \<open>Air Bravo AB123 - \<close> followed by the euro sign and
  \<open>100\<close>, \<open>Departs: 9:00 AM\<close>, the arrow and \<open>Arrives: 11:30 AM\<close>,
  \<open>2h 30m, nonstop\<close> and \<open>Seats available: 3\<close>.
\<close>

theorem scenarioD_output:
  "formatFlightResults stringify (scenarioD ''EUR'') = Ret (JStr (scenarioText euro)) \<and>
   includesStr (scenarioText euro) ''Found 1 flights:'' \<and>
   includesStr (scenarioText euro) (''Air Bravo AB123 - '' @ euro @ ''100'') \<and>
   includesStr (scenarioText euro) (''Departs: 9:00 AM '' @ arrow @ '' Arrives: 11:30 AM'') \<and>
   includesStr (scenarioText euro) ''2h 30m, nonstop'' \<and>
   includesStr (scenarioText euro) ''Seats available: 3''"
proof (intro conjI)
  show "formatFlightResults stringify (scenarioD ''EUR'') = Ret (JStr (scenarioText euro))"
    using scenarioD_run[of stringify "''EUR''"] by simp
  show "includesStr (scenarioText euro) ''Found 1 flights:''" by code_simp
  show "includesStr (scenarioText euro) (''Air Bravo AB123 - '' @ euro @ ''100'')" by code_simp
  show "includesStr (scenarioText euro) (''Departs: 9:00 AM '' @ arrow @ '' Arrives: 11:30 AM'')"
    by code_simp
  show "includesStr (scenarioText euro) ''2h 30m, nonstop''" by code_simp
  show "includesStr (scenarioText euro) ''Seats available: 3''" by code_simp
qed

theorem scenarioD_output_witness:
  "formatFlightResults (\<lambda>v. JUndefined) (scenarioD ''EUR'') = Ret (JStr (scenarioText euro)) \<and>
   includesStr (scenarioText euro) ''Seats available: 3''"
  using scenarioD_output[of "\<lambda>v. JUndefined"] by simp

text \<open>
  The claim as stated fails: the text for scenario D has the words \<open>Arrives:\<close> between
  the arrow and the arrival time, so \<open>9:00 AM\<close>, the arrow, \<open>11:30 AM\<close> is not part
  of it.
\<close>

theorem scenarioD_times_counterexample:
  "formatFlightResults (\<lambda>v. JUndefined) (scenarioD ''EUR'') = Ret (JStr (scenarioText euro)) \<and>
   \<not> includesStr (scenarioText euro) (''9:00 AM '' @ arrow @ '' 11:30 AM'')"
proof (intro conjI)
  show "formatFlightResults (\<lambda>v. JUndefined) (scenarioD ''EUR'') = Ret (JStr (scenarioText euro))"
    using scenarioD_run[of "\<lambda>v. JUndefined" "''EUR''"] by simp
  show "\<not> includesStr (scenarioText euro) (''9:00 AM '' @ arrow @ '' 11:30 AM'')" by code_simp
qed

text \<open>
  Claim C9, as amended. Whenever the lines of an offer are produced, the offer has a price
  with a currency and a total, and every itinerary of the offer is printed with the price
  that is the euro sign followed by the total when the currency is the string \<open>EUR\<close>, and
  the dollar sign followed by the total for every other currency.
\<close>

theorem offer_price_sign:
  assumes "offerLines carriers offer lines = Ret lines'"
  shows "\<exists>price currency total t name its.
           getProp offer ''price'' = Ret price \<and> getProp price ''currency'' = Ret currency \<and>
           getProp price ''total'' = Ret total \<and> toStr total = Ret t \<and>
           forEach (itineraryLines offer name ((if currency = JStr ''EUR'' then euro else ''$'') @ t))
             its lines = Ret lines'"
  using assms
  unfolding offerLines_def renderPrice_def Let_def bindO_Ret_iff
  by (elim exE conjE) (simp, blast)

theorem offer_price_sign_witness:
  "offerLines (JObj [(''AB'', JStr ''Air Bravo'')]) (scenarioOffer ''GBP'') [] =
     Ret [bullet @ '' Air Bravo AB123 - '' @ ''$'' @ ''100'',
        ''  Departs: 9:00 AM '' @ arrow @ '' Arrives: 11:30 AM (2h 30m, nonstop)'',
        ''  Seats available: 3'',
        ''''] \<and>
   (\<exists>price currency total t name its.
           getProp (scenarioOffer ''GBP'') ''price'' = Ret price \<and>
           getProp price ''currency'' = Ret currency \<and>
           getProp price ''total'' = Ret total \<and> toStr total = Ret t \<and>
           forEach (itineraryLines (scenarioOffer ''GBP'') name
                      ((if currency = JStr ''EUR'' then euro else ''$'') @ t))
             its [] =
           Ret [bullet @ '' Air Bravo AB123 - '' @ ''$'' @ ''100'',
                ''  Departs: 9:00 AM '' @ arrow @ '' Arrives: 11:30 AM (2h 30m, nonstop)'',
                ''  Seats available: 3'',
                ''''])"
proof -
  have run: "offerLines (JObj [(''AB'', JStr ''Air Bravo'')]) (scenarioOffer ''GBP'') [] =
     Ret [bullet @ '' Air Bravo AB123 - '' @ ''$'' @ ''100'',
        ''  Departs: 9:00 AM '' @ arrow @ '' Arrives: 11:30 AM (2h 30m, nonstop)'',
        ''  Seats available: 3'',
        '''']"
    using scenarioOffer_lines[of "''GBP''" "[]"] by simp
  from offer_price_sign[OF run] run show ?thesis by blast
qed

text \<open>
  The claim as stated fails for a currency that is not \<open>EUR\<close>: the offer of scenario D in
  \<open>GBP\<close> is printed with \<open>$100\<close>, and \<open>GBP\<close> is nowhere in the text.
\<close>

theorem pounds_printed_as_dollars_counterexample:
  "formatFlightResults (\<lambda>v. JUndefined) (scenarioD ''GBP'') = Ret (JStr (scenarioText ''$'')) \<and>
   includesStr (scenarioText ''$'') ''Air Bravo AB123 - $100'' \<and>
   \<not> includesStr (scenarioText ''$'') ''GBP''"
proof (intro conjI)
  show "formatFlightResults (\<lambda>v. JUndefined) (scenarioD ''GBP'') = Ret (JStr (scenarioText ''$''))"
    using scenarioD_run[of "\<lambda>v. JUndefined" "''GBP''"] by simp
  show "includesStr (scenarioText ''$'') ''Air Bravo AB123 - $100''" by code_simp
  show "\<not> includesStr (scenarioText ''$'') ''GBP''" by code_simp
qed

end
